theory Spec2Isabelle
  imports Complex_Main "HOL-Library.Word"
begin

unbundle bit_operations_syntax

section \<open>Python strings\<close>

text \<open>
  A Python \<open>str\<close> is modelled as a \<open>string\<close>: the list of the bytes of its UTF-8
  encoding. A character of the \<open>str\<close> (a code point) is a chunk of that list: a byte
  and the continuation bytes that follow it. Substring tests, splitting and searching
  agree with Python on such lists. White space is the set of characters \<open>str.isspace\<close>
  accepts, written out. Lower-casing and the digits of \<open>\d\<close> are written out for ASCII
  text; for other text they are read from the Unicode tables of the library:
  \<open>uni_lower\<close> is \<open>str.lower\<close> on a text that is not all ASCII, \<open>uni_decimal\<close> says
  whether \<open>\d\<close> matches a character that is not ASCII.
\<close>

record unidata =
  uni_lower :: "string \<Rightarrow> string"
  uni_decimal :: "string \<Rightarrow> bool"

definition is_ascii :: "string \<Rightarrow> bool" where
  "is_ascii s = list_all (\<lambda>c. (of_char c :: nat) < 128) s"

definition is_digit :: "char \<Rightarrow> bool" where
  "is_digit c = (c \<in> set ''0123456789'')"

definition lower_char :: "char \<Rightarrow> char" where
  "lower_char c =
     (case map_of (zip ''ABCDEFGHIJKLMNOPQRSTUVWXYZ'' ''abcdefghijklmnopqrstuvwxyz'') c of
        None \<Rightarrow> c
      | Some l \<Rightarrow> l)"

definition ascii_lower :: "string \<Rightarrow> string" where
  \<comment> \<open>the letters A to Z to lower case, every other byte as it is\<close>
  "ascii_lower s = map lower_char s"

definition lower :: "'a unidata_scheme \<Rightarrow> string \<Rightarrow> string" where
  \<comment> \<open>\<open>s.lower()\<close>\<close>
  "lower lib s = (if is_ascii s then ascii_lower s else uni_lower lib s)"

definition is_cont :: "char \<Rightarrow> bool" where
  \<comment> \<open>a continuation byte of a UTF-8 sequence\<close>
  "is_cont c = (128 \<le> (of_char c :: nat) \<and> (of_char c :: nat) < 192)"

fun chars :: "string \<Rightarrow> string list" where
  \<comment> \<open>the characters of a text, each with its continuation bytes\<close>
  "chars [] = []"
| "chars (c # cs) =
     (case chars cs of
        [] \<Rightarrow> [[c]]
      | ch # chs \<Rightarrow> if is_cont (hd ch) then (c # ch) # chs else [c] # ch # chs)"

definition re_digit :: "'a unidata_scheme \<Rightarrow> string \<Rightarrow> bool" where
  \<comment> \<open>\<open>\d\<close> of a \<open>str\<close> pattern on one character: a Unicode decimal digit\<close>
  "re_digit lib ch =
     (if is_ascii ch then ch \<in> set (map (\<lambda>c. [c]) ''0123456789'') else uni_decimal lib ch)"

definition ascii_spaces :: string where
  \<comment> \<open>The ASCII characters \<open>str.isspace\<close> accepts: 9 to 13, 28 to 31 and the blank.\<close>
  "ascii_spaces = [CHR 0x09, CHR 0x0A, CHR 0x0B, CHR 0x0C, CHR 0x0D,
                   CHR 0x1C, CHR 0x1D, CHR 0x1E, CHR 0x1F, CHR 0x20]"

definition is_space :: "char \<Rightarrow> bool" where
  "is_space c = (c \<in> set ascii_spaces)"

definition wide_spaces :: "string list" where
  \<comment> \<open>The other characters \<open>str.isspace\<close> accepts, in UTF-8: U+0085, U+00A0, U+1680,
     U+2000 to U+200A, U+2028, U+2029, U+202F, U+205F and U+3000.\<close>
  "wide_spaces =
     [[CHR 0xC2, CHR 0x85], [CHR 0xC2, CHR 0xA0], [CHR 0xE1, CHR 0x9A, CHR 0x80],
      [CHR 0xE2, CHR 0x80, CHR 0x80], [CHR 0xE2, CHR 0x80, CHR 0x81],
      [CHR 0xE2, CHR 0x80, CHR 0x82], [CHR 0xE2, CHR 0x80, CHR 0x83],
      [CHR 0xE2, CHR 0x80, CHR 0x84], [CHR 0xE2, CHR 0x80, CHR 0x85],
      [CHR 0xE2, CHR 0x80, CHR 0x86], [CHR 0xE2, CHR 0x80, CHR 0x87],
      [CHR 0xE2, CHR 0x80, CHR 0x88], [CHR 0xE2, CHR 0x80, CHR 0x89],
      [CHR 0xE2, CHR 0x80, CHR 0x8A], [CHR 0xE2, CHR 0x80, CHR 0xA8],
      [CHR 0xE2, CHR 0x80, CHR 0xA9], [CHR 0xE2, CHR 0x80, CHR 0xAF],
      [CHR 0xE2, CHR 0x81, CHR 0x9F], [CHR 0xE3, CHR 0x80, CHR 0x80]]"

definition is_space_char :: "string \<Rightarrow> bool" where
  \<comment> \<open>\<open>ch.isspace()\<close> of one character\<close>
  "is_space_char ch = (ch \<in> set (map (\<lambda>c. [c]) ascii_spaces @ wide_spaces))"

definition strip_chars :: "(char \<Rightarrow> bool) \<Rightarrow> string \<Rightarrow> string" where
  "strip_chars p s = rev (dropWhile p (rev (dropWhile p s)))"

definition strip :: "string \<Rightarrow> string" where
  \<comment> \<open>\<open>s.strip()\<close>: the white space at both ends removed\<close>
  "strip s = concat (rev (dropWhile is_space_char (rev (dropWhile is_space_char (chars s)))))"

definition newline :: char where
  "newline = CHR 0x0A"

fun contains :: "string \<Rightarrow> string \<Rightarrow> bool" where
  \<comment> \<open>\<open>g in s\<close> for two strings\<close>
  "contains g [] = (g = [])"
| "contains g (c # cs) = (take (length g) (c # cs) = g \<or> contains g cs)"

fun after_first :: "string \<Rightarrow> string \<Rightarrow> string option" where
  \<comment> \<open>\<open>s.split(sep, 1)[1]\<close> when \<open>sep in s\<close>, for a non-empty \<open>sep\<close>\<close>
  "after_first sep [] = None"
| "after_first sep (c # cs) =
     (if take (length sep) (c # cs) = sep then Some (drop (length sep) (c # cs))
      else after_first sep cs)"

fun take_cp :: "nat \<Rightarrow> string \<Rightarrow> string" where
  \<comment> \<open>\<open>s[:n]\<close>: the first \<open>n\<close> code points\<close>
  "take_cp n [] = []"
| "take_cp n (c # cs) =
     (if is_cont c then c # take_cp n cs
      else (case n of 0 \<Rightarrow> [] | Suc m \<Rightarrow> c # take_cp m cs))"

definition str_opt :: "string option \<Rightarrow> string" where
  \<comment> \<open>\<open>str(v)\<close> of a string or \<open>None\<close>, as an f-string renders it\<close>
  "str_opt v = (case v of None \<Rightarrow> ''None'' | Some s \<Rightarrow> s)"

definition or_empty :: "string option \<Rightarrow> string" where
  \<comment> \<open>\<open>v or ""\<close>\<close>
  "or_empty v = (case v of None \<Rightarrow> [] | Some s \<Rightarrow> s)"

section \<open>Values and exceptions\<close>

datatype json =
    JNull
  | JBool bool
  | JNum rat
  | JStr string
  | JArr "json list"
  | JObj "(string \<times> json) list"

fun truthy :: "json \<Rightarrow> bool" where
  "truthy JNull = False"
| "truthy (JBool b) = b"
| "truthy (JNum x) = (x \<noteq> 0)"
| "truthy (JStr s) = (s \<noteq> [])"
| "truthy (JArr xs) = (xs \<noteq> [])"
| "truthy (JObj kvs) = (kvs \<noteq> [])"

datatype exn_class =
    KeyError | ValueError | IndexError | TypeError | AttributeError
  | RuntimeError | FileNotFoundError | OSError | JSONDecodeError | PlaywrightError | OtherError

text \<open>An exception is its class and the text \<open>str(e)\<close> gives.\<close>

datatype exn = Exn exn_class string

fun exn_str :: "exn \<Rightarrow> string" where
  "exn_str (Exn k m) = m"

fun foldE :: "('a \<Rightarrow> 's \<Rightarrow> 'e + 's) \<Rightarrow> 'a list \<Rightarrow> 's \<Rightarrow> 'e + 's" where
  \<comment> \<open>a \<open>for\<close> loop over a list whose body may raise\<close>
  "foldE f [] s = Inr s"
| "foldE f (x # xs) s = (case f x s of Inl e \<Rightarrow> Inl e | Inr s' \<Rightarrow> foldE f xs s')"

section \<open>The scan result (\<open>axe_runner.py\<close>)\<close>

record axe_check =
  chk_id :: "string option"
  chk_message :: "string option"
  chk_data :: "json option"

record axe_node =
  n_target :: "string list option"
  n_html :: "string option"
  n_failureSummary :: "string option"
  n_any :: "axe_check list"
  n_all :: "axe_check list"
  n_none :: "axe_check list"

record rule_result =
  r_id :: "string option"
  r_tags :: "string list"
  r_help :: "string option"
  r_helpUrl :: "string option"
  r_impact :: "string option"
  r_nodes :: "axe_node list"

record axe_payload =
  violations :: "rule_result list"
  incomplete :: "rule_result list"
  passes :: "rule_result list"

record candidate =
  page_url :: string
  bucket :: string
  topic :: string
  sc_list :: "string list"
  axe_rule_id :: "string option"
  axe_help :: "string option"
  axe_help_url :: "string option"
  impact :: "string option"
  selector :: string
  html_snippet :: string
  attributes :: "(string \<times> string) list"
  role_name_guess :: string
  nearby_text :: string
  acc_snapshot :: json
  screenshot :: "string option"
  failureSummary :: "string option"
  why_any :: "string list"
  why_all :: "string list"
  why_none :: "string list"

text \<open>
  The functions of the Python library the code calls. Their results are taken as given:
  the Unicode tables, \<open>str\<close> of a value, the name of the type of a number
  (\<open>int\<close> or \<open>float\<close>), \<open>json.dumps\<close> (\<open>json_dumps\<close> is
  \<open>json.dumps(v, ensure_ascii=False)\<close>, \<open>json_dumps_indent\<close> is
  \<open>json.dumps(v, indent=2, ensure_ascii=False)\<close> and \<open>json_dumps_indent_ascii\<close> is
  \<open>json.dumps(v, indent=2)\<close>), \<open>json.loads\<close> (and its result read as the list of
  candidates), \<open>str.format\<close> with keyword arguments, and SHA-256.
\<close>

record pylib = unidata +
  py_str :: "json \<Rightarrow> string"
  num_type_name :: "rat \<Rightarrow> string"
  json_dumps :: "json \<Rightarrow> string"
  json_dumps_indent :: "json \<Rightarrow> string"
  json_dumps_indent_ascii :: "json \<Rightarrow> string"
  json_loads :: "string \<Rightarrow> exn + json"
  read_candidates :: "string \<Rightarrow> exn + candidate list"
  str_format :: "string \<Rightarrow> (string \<times> json) list \<Rightarrow> exn + string"
  sha256 :: "string \<Rightarrow> 256 word"

text \<open>
  The browser page. \<open>query_selector\<close>, \<open>eval_on_selector\<close> (for the attribute map and
  for \<open>el.closest('a,button')\<close>) and \<open>inner_text\<close> are called outside any
  \<open>try\<close>, so each may raise. \<open>get_accessibility_snapshot\<close>, \<open>get_nearby_text\<close>,
  \<open>get_role_name_guess\<close> and \<open>crop_element_screenshot\<close> catch every exception and
  return a default, so each is a total function of the page. The page does not change
  during the scan.
\<close>

record page =
  query_selector :: "string \<Rightarrow> exn + bool"
  eval_attributes :: "string \<Rightarrow> exn + (string \<times> string) list"
  eval_closest :: "string \<Rightarrow> exn + bool"
  inner_text :: "string \<Rightarrow> exn + string"
  get_accessibility_snapshot :: "string \<Rightarrow> json"
  get_nearby_text :: "string \<Rightarrow> string"
  get_role_name_guess :: "string \<Rightarrow> string"
  crop_element_screenshot :: "string \<Rightarrow> string \<Rightarrow> string option"

subsection \<open>Success criteria and topic\<close>

fun wcag_match ::
  "'a unidata_scheme \<Rightarrow> bool \<Rightarrow> string list \<Rightarrow> (string \<times> string \<times> string) option" where
  \<comment> \<open>\<open>wcag(\d)(\d)(\d)$\<close> against a list of characters, from its first character on;
     the flag is \<open>re.IGNORECASE\<close>, under which the characters that match the letters of
     \<open>wcag\<close> are these letters in upper and in lower case. Python's \<open>$\<close> matches at
     the end of the text and also just before a newline that ends the text.\<close>
  "wcag_match lib ci (w # c # a # g # d1 # d2 # d3 # rest) =
     (if (if ci then ascii_lower (concat [w, c, a, g]) else concat [w, c, a, g]) = ''wcag''
         \<and> re_digit lib d1 \<and> re_digit lib d2 \<and> re_digit lib d3
         \<and> (rest = [] \<or> rest = [[newline]])
      then Some (d1, d2, d3) else None)"
| "wcag_match lib ci _ = None"

definition wcag_groups ::
  "'a unidata_scheme \<Rightarrow> bool \<Rightarrow> string \<Rightarrow> (string \<times> string \<times> string) option" where
  \<comment> \<open>the groups of \<open>re.match(r"wcag(\d)(\d)(\d)$", s)\<close>\<close>
  "wcag_groups lib ci s = wcag_match lib ci (chars s)"

fun join_dots :: "string \<times> string \<times> string \<Rightarrow> string" where
  \<comment> \<open>\<open>".".join(m.groups())\<close>\<close>
  "join_dots (d1, d2, d3) = d1 @ ''.'' @ d2 @ ''.'' @ d3"

definition extract_scs :: "pylib \<Rightarrow> string list \<Rightarrow> string list" where
  "extract_scs lib tags =
     List.map_filter (\<lambda>t. map_option join_dots (wcag_groups lib False (lower lib t))) tags"

definition primary_sc :: "string list \<Rightarrow> string option" where
  "primary_sc scs = (case scs of [] \<Rightarrow> None | s # _ \<Rightarrow> Some s)"

definition topic_of :: "string list \<Rightarrow> string" where
  \<comment> \<open>\<open>f"SC-{_primary_sc(scs)}" if scs else "BEST_PRACTICE"\<close>\<close>
  "topic_of scs = (if scs \<noteq> [] then ''SC-'' @ str_opt (primary_sc scs) else ''BEST_PRACTICE'')"

definition str_of :: "pylib \<Rightarrow> json \<Rightarrow> string" where
  \<comment> \<open>\<open>str(v)\<close>: a string is itself\<close>
  "str_of lib v = (case v of JStr s \<Rightarrow> s | _ \<Rightarrow> py_str lib v)"

definition msg_of :: "pylib \<Rightarrow> axe_check \<Rightarrow> string" where
  \<comment> \<open>\<open>it.get("message") or it.get("data") or ""\<close>, as the f-string renders it\<close>
  "msg_of lib it =
     (if or_empty (chk_message it) \<noteq> [] then or_empty (chk_message it)
      else (case chk_data it of
              None \<Rightarrow> []
            | Some d \<Rightarrow> if truthy d then str_of lib d else []))"

definition msgs :: "pylib \<Rightarrow> axe_check list \<Rightarrow> string list" where
  "msgs lib items =
     map (\<lambda>it. strip (strip_chars (\<lambda>c. c \<in> set '': '')
                         (or_empty (chk_id it) @ '': '' @ msg_of lib it))) items"

fun sub_runs :: "bool \<Rightarrow> string \<Rightarrow> string" where
  \<comment> \<open>\<open>re.sub(r"[^a-zA-Z0-9._-]+", "_", s)\<close>; the flag says a run of refused
     characters is being replaced\<close>
  "sub_runs in_run [] = []"
| "sub_runs in_run (c # cs) =
     (if c \<in> set ''abcdefghijklmnopqrstuvwxyzABCDEFGHIJKLMNOPQRSTUVWXYZ0123456789._-''
      then c # sub_runs False cs
      else if in_run then sub_runs True cs
      else CHR ''_'' # sub_runs True cs)"

definition sanitize_filename :: "string \<Rightarrow> string" where
  "sanitize_filename s = take 120 (sub_runs False s)"

subsection \<open>Building the candidates (\<open>run_axe_on_url\<close>, lines 173 to 309)\<close>

record sel_state =
  seen :: "(string option \<times> string) set"
  candidates :: "candidate list"

definition first_target :: "axe_node \<Rightarrow> string" where
  \<comment> \<open>\<open>(n.get("target") or [""])[0]\<close>\<close>
  "first_target n = (case n_target n of None \<Rightarrow> [] | Some [] \<Rightarrow> [] | Some (t # _) \<Rightarrow> t)"

definition node_attributes :: "page \<Rightarrow> string \<Rightarrow> exn + (string \<times> string) list" where
  \<comment> \<open>\<open>page.eval_on_selector(sel, ...) if page.query_selector(sel) else {}\<close>\<close>
  "node_attributes pg sel =
     (case query_selector pg sel of
        Inl e \<Rightarrow> Inl e
      | Inr found \<Rightarrow> if found then eval_attributes pg sel else Inr [])"

definition shot_path :: "string \<Rightarrow> string option \<Rightarrow> string \<Rightarrow> string" where
  "shot_path out_dir rid sel =
     out_dir @ ''/screenshots/'' @
     sanitize_filename (str_opt rid @ ''__'' @ take_cp 60 sel) @ ''.png''"

definition make_candidate ::
  "pylib \<Rightarrow> page \<Rightarrow> string \<Rightarrow> string \<Rightarrow> string \<Rightarrow> rule_result \<Rightarrow> string list \<Rightarrow> string \<Rightarrow>
   axe_node \<Rightarrow> string \<Rightarrow> (string \<times> string) list \<Rightarrow> candidate" where
  "make_candidate lib pg url out_dir bkt r scs tpc n sel attrs =
     \<lparr> page_url = url,
       bucket = bkt,
       topic = tpc,
       sc_list = scs,
       axe_rule_id = r_id r,
       axe_help = r_help r,
       axe_help_url = r_helpUrl r,
       impact = r_impact r,
       selector = sel,
       html_snippet = or_empty (n_html n),
       attributes = attrs,
       role_name_guess = get_role_name_guess pg sel,
       nearby_text = get_nearby_text pg sel,
       acc_snapshot = get_accessibility_snapshot pg sel,
       screenshot = crop_element_screenshot pg sel (shot_path out_dir (r_id r) sel),
       failureSummary = n_failureSummary n,
       why_any = msgs lib (n_any n),
       why_all = msgs lib (n_all n),
       why_none = msgs lib (n_none n) \<rparr>"

definition admit ::
  "pylib \<Rightarrow> page \<Rightarrow> string \<Rightarrow> string \<Rightarrow> string \<Rightarrow> rule_result \<Rightarrow> string list \<Rightarrow> string \<Rightarrow>
   axe_node \<Rightarrow> string \<Rightarrow> sel_state \<Rightarrow> exn + sel_state" where
  \<comment> \<open>\<open>seen.add(key)\<close>, the context of the element, \<open>candidates.append({...})\<close>\<close>
  "admit lib pg url out_dir bkt r scs tpc n sel st =
     (case node_attributes pg sel of
        Inl e \<Rightarrow> Inl e
      | Inr attrs \<Rightarrow>
          Inr \<lparr> seen = insert (r_id r, sel) (seen st),
                candidates = candidates st @
                  [make_candidate lib pg url out_dir bkt r scs tpc n sel attrs] \<rparr>)"

definition must_review_node ::
  "pylib \<Rightarrow> page \<Rightarrow> string \<Rightarrow> string \<Rightarrow> rule_result \<Rightarrow> string list \<Rightarrow> string \<Rightarrow>
   axe_node \<Rightarrow> sel_state \<Rightarrow> exn + sel_state" where
  "must_review_node lib pg url out_dir r scs tpc n st =
     (let sel = first_target n in
      if sel = [] then Inr st
      else if (r_id r, sel) \<in> seen st then Inr st
      else admit lib pg url out_dir ''must_review'' r scs tpc n sel st)"

definition must_review_rule ::
  "pylib \<Rightarrow> page \<Rightarrow> string \<Rightarrow> string \<Rightarrow> rule_result \<Rightarrow> sel_state \<Rightarrow> exn + sel_state" where
  "must_review_rule lib pg url out_dir r st =
     (let scs = extract_scs lib (r_tags r); tpc = topic_of scs in
      foldE (must_review_node lib pg url out_dir r scs tpc) (r_nodes r) st)"

definition must_review ::
  "pylib \<Rightarrow> page \<Rightarrow> string \<Rightarrow> string \<Rightarrow> axe_payload \<Rightarrow> sel_state \<Rightarrow> exn + sel_state" where
  \<comment> \<open>\<open>for bucket in ["violations", "incomplete"]: for r in axe_payload.get(bucket, [])\<close>\<close>
  "must_review lib pg url out_dir payload st =
     foldE (\<lambda>rules. foldE (must_review_rule lib pg url out_dir) rules)
       [violations payload, incomplete payload] st"

definition em_dash_sep :: string where
  \<comment> \<open>the separator of \<open>role \<emdash> name\<close>: a blank, U+2014 in UTF-8, a blank\<close>
  "em_dash_sep = [CHR 0x20, CHR 0xE2, CHR 0x80, CHR 0x94, CHR 0x20]"

definition generic_name :: "string \<Rightarrow> bool" where
  \<comment> \<open>\<open>rn\<close> of the lowercased role and name guess, and \<open>any(g in rn for g in [...])\<close>\<close>
  "generic_name role_name =
     (let rn = (case after_first em_dash_sep role_name of Some r \<Rightarrow> r | None \<Rightarrow> role_name)
      in list_ex (\<lambda>g. contains g rn) [''image'', ''photo'', ''img_'', ''.jpg'', ''.png''])"

fun image_alt_loop ::
  "pylib \<Rightarrow> page \<Rightarrow> string \<Rightarrow> string \<Rightarrow> rule_result \<Rightarrow> string list \<Rightarrow> string \<Rightarrow>
   axe_node list \<Rightarrow> sel_state \<Rightarrow> exn + sel_state" where
  "image_alt_loop lib pg url out_dir r scs tpc [] st = Inr st"
| "image_alt_loop lib pg url out_dir r scs tpc (n # ns) st =
     (let sel = first_target n in
      if sel = [] then image_alt_loop lib pg url out_dir r scs tpc ns st
      else
        (case eval_closest pg sel of
           Inl e \<Rightarrow> Inl e
         | Inr is_functional \<Rightarrow>
             if is_functional \<or> generic_name (lower lib (get_role_name_guess pg sel)) then
               (if (r_id r, sel) \<in> seen st
                then image_alt_loop lib pg url out_dir r scs tpc ns st
                else admit lib pg url out_dir ''semantic_review'' r scs tpc n sel st)
             else image_alt_loop lib pg url out_dir r scs tpc ns st))"

definition link_text :: "pylib \<Rightarrow> page \<Rightarrow> string \<Rightarrow> exn + string" where
  \<comment> \<open>\<open>(page.inner_text(sel) or "").strip().lower() if page.query_selector(sel) else ""\<close>\<close>
  "link_text lib pg sel =
     (case query_selector pg sel of
        Inl e \<Rightarrow> Inl e
      | Inr found \<Rightarrow>
          if found then
            (case inner_text pg sel of Inl e \<Rightarrow> Inl e | Inr t \<Rightarrow> Inr (lower lib (strip t)))
          else Inr [])"

definition vague_link_texts :: "string list" where
  "vague_link_texts = [''click here'', ''learn more'', ''read more'']"

fun link_name_loop ::
  "pylib \<Rightarrow> page \<Rightarrow> string \<Rightarrow> string \<Rightarrow> rule_result \<Rightarrow> string list \<Rightarrow> string \<Rightarrow>
   axe_node list \<Rightarrow> sel_state \<Rightarrow> exn + sel_state" where
  "link_name_loop lib pg url out_dir r scs tpc [] st = Inr st"
| "link_name_loop lib pg url out_dir r scs tpc (n # ns) st =
     (let sel = first_target n in
      if sel = [] then link_name_loop lib pg url out_dir r scs tpc ns st
      else
        (case link_text lib pg sel of
           Inl e \<Rightarrow> Inl e
         | Inr txt \<Rightarrow>
             if txt \<in> set vague_link_texts then
               (if (r_id r, sel) \<in> seen st
                then link_name_loop lib pg url out_dir r scs tpc ns st
                else admit lib pg url out_dir ''semantic_review'' r scs tpc n sel st)
             else link_name_loop lib pg url out_dir r scs tpc ns st))"

definition promote_rule ::
  "pylib \<Rightarrow> page \<Rightarrow> string \<Rightarrow> string \<Rightarrow> rule_result \<Rightarrow> sel_state \<Rightarrow> exn + sel_state" where
  "promote_rule lib pg url out_dir r st =
     (if r_id r \<notin> {Some ''image-alt'', Some ''link-name''} then Inr st
      else
        (let scs = extract_scs lib (r_tags r); tpc = topic_of scs in
         case (if r_id r = Some ''image-alt''
               then image_alt_loop lib pg url out_dir r scs tpc (take 30 (r_nodes r)) st
               else Inr st) of
           Inl e \<Rightarrow> Inl e
         | Inr st1 \<Rightarrow>
             if r_id r = Some ''link-name''
             then link_name_loop lib pg url out_dir r scs tpc (take 30 (r_nodes r)) st1
             else Inr st1))"

definition promote_passes ::
  "pylib \<Rightarrow> page \<Rightarrow> string \<Rightarrow> string \<Rightarrow> axe_payload \<Rightarrow> sel_state \<Rightarrow> exn + sel_state" where
  "promote_passes lib pg url out_dir payload st =
     foldE (promote_rule lib pg url out_dir) (passes payload) st"

definition build_candidates ::
  "pylib \<Rightarrow> page \<Rightarrow> string \<Rightarrow> string \<Rightarrow> axe_payload \<Rightarrow> exn + candidate list" where
  "build_candidates lib pg url out_dir payload =
     (case must_review lib pg url out_dir payload \<lparr> seen = {}, candidates = [] \<rparr> of
        Inl e \<Rightarrow> Inl e
      | Inr st \<Rightarrow>
          (case promote_passes lib pg url out_dir payload st of
             Inl e \<Rightarrow> Inl e
           | Inr st' \<Rightarrow> Inr (candidates st')))"

subsection \<open>The selection policy, as the specification words it\<close>

text \<open>
  The definitions of this subsection follow the specification, not the code: the
  theorems below compare them with \<open>build_candidates\<close>.
\<close>

definition cand_key :: "candidate \<Rightarrow> string option \<times> string" where
  \<comment> \<open>the uniqueness key of a candidate: (rule\_id, selector)\<close>
  "cand_key c = (axe_rule_id c, selector c)"

definition node_key :: "rule_result \<times> axe_node \<Rightarrow> string option \<times> string" where
  "node_key x = (r_id (fst x), first_target (snd x))"

definition has_selector :: "rule_result \<times> axe_node \<Rightarrow> bool" where
  "has_selector x = (first_target (snd x) \<noteq> [])"

definition rule_nodes :: "rule_result list \<Rightarrow> (rule_result \<times> axe_node) list" where
  \<comment> \<open>every node under every rule, in rule order and node order\<close>
  "rule_nodes rs = concat (map (\<lambda>r. map (Pair r) (r_nodes r)) rs)"

definition review_nodes :: "axe_payload \<Rightarrow> (rule_result \<times> axe_node) list" where
  \<comment> \<open>the nodes of the buckets violations and incomplete, in this order\<close>
  "review_nodes p = rule_nodes (violations p @ incomplete p)"

definition attrs_or_empty :: "page \<Rightarrow> string \<Rightarrow> (string \<times> string) list" where
  "attrs_or_empty pg sel = (case node_attributes pg sel of Inl e \<Rightarrow> [] | Inr a \<Rightarrow> a)"

definition candidate_of ::
  "pylib \<Rightarrow> page \<Rightarrow> string \<Rightarrow> string \<Rightarrow> string \<Rightarrow> rule_result \<times> axe_node \<Rightarrow> candidate" where
  \<comment> \<open>the candidate of a node under a rule, in the given bucket\<close>
  "candidate_of lib pg url out_dir bkt x =
     make_candidate lib pg url out_dir bkt (fst x) (extract_scs lib (r_tags (fst x)))
       (topic_of (extract_scs lib (r_tags (fst x)))) (snd x) (first_target (snd x))
       (attrs_or_empty pg (first_target (snd x)))"

fun select_new ::
  "(string option \<times> string) set \<Rightarrow> (rule_result \<times> axe_node) list \<Rightarrow>
   (rule_result \<times> axe_node) list" where
  \<comment> \<open>the nodes that have a selector and a key not seen before, the seen keys being \<open>S\<close>
     at the start\<close>
  "select_new S [] = []"
| "select_new S (x # xs) =
     (if has_selector x \<and> node_key x \<notin> S then x # select_new (insert (node_key x) S) xs
      else select_new S xs)"

definition first_occurrences :: "('a \<Rightarrow> 'k) \<Rightarrow> 'a list \<Rightarrow> 'a list" where
  \<comment> \<open>the elements whose key occurs at no earlier position\<close>
  "first_occurrences key xs =
     map (nth xs) (filter (\<lambda>i. key (xs ! i) \<notin> key ` set (take i xs)) [0..<length xs])"

definition yields_candidate :: "(rule_result \<times> axe_node) list \<Rightarrow> nat \<Rightarrow> bool" where
  \<comment> \<open>the node at position \<open>i\<close> has a non-empty selector and its key was not seen at an
     earlier position\<close>
  "yields_candidate xs i =
     (has_selector (xs ! i) \<and> node_key (xs ! i) \<notin> node_key ` set (take i xs))"

definition image_qualifies ::
  "pylib \<Rightarrow> page \<Rightarrow> (string option \<times> string) set \<Rightarrow> rule_result \<times> axe_node \<Rightarrow> bool" where
  \<comment> \<open>the element is inside an anchor or a button, or its guessed name looks generic\<close>
  "image_qualifies lib pg S x =
     (has_selector x \<and>
      (case eval_closest pg (first_target (snd x)) of
         Inl e \<Rightarrow> False
       | Inr is_functional \<Rightarrow>
           is_functional \<or> generic_name (lower lib (get_role_name_guess pg (first_target (snd x))))) \<and>
      node_key x \<notin> S)"

definition link_qualifies ::
  "pylib \<Rightarrow> page \<Rightarrow> (string option \<times> string) set \<Rightarrow> rule_result \<times> axe_node \<Rightarrow> bool" where
  \<comment> \<open>the rendered text, trimmed and lowercased, is one of the three vague texts\<close>
  "link_qualifies lib pg S x =
     (has_selector x \<and>
      (case link_text lib pg (first_target (snd x)) of
         Inl e \<Rightarrow> False
       | Inr txt \<Rightarrow> txt \<in> set vague_link_texts) \<and>
      node_key x \<notin> S)"

definition first_qualifying ::
  "pylib \<Rightarrow> page \<Rightarrow> string \<Rightarrow> string \<Rightarrow> (rule_result \<times> axe_node \<Rightarrow> bool) \<Rightarrow> rule_result \<Rightarrow>
   candidate list" where
  \<comment> \<open>the candidate of the first qualifying node among the first 30 nodes of the rule\<close>
  "first_qualifying lib pg url out_dir q r =
     (case find q (map (Pair r) (take 30 (r_nodes r))) of
        None \<Rightarrow> []
      | Some x \<Rightarrow> [candidate_of lib pg url out_dir ''semantic_review'' x])"

definition promoted_by ::
  "pylib \<Rightarrow> page \<Rightarrow> string \<Rightarrow> string \<Rightarrow> (string option \<times> string) set \<Rightarrow> rule_result \<Rightarrow>
   candidate list" where
  \<comment> \<open>what one entry of the passes bucket contributes when the keys \<open>S\<close> are seen\<close>
  "promoted_by lib pg url out_dir S r =
     (if r_id r = Some ''image-alt'' then first_qualifying lib pg url out_dir (image_qualifies lib pg S) r
      else if r_id r = Some ''link-name'' then first_qualifying lib pg url out_dir (link_qualifies lib pg S) r
      else [])"

fun promoted_all ::
  "pylib \<Rightarrow> page \<Rightarrow> string \<Rightarrow> string \<Rightarrow> (string option \<times> string) set \<Rightarrow> rule_result list \<Rightarrow>
   candidate list list" where
  \<comment> \<open>the contribution of each entry of the passes bucket, in order\<close>
  "promoted_all lib pg url out_dir S [] = []"
| "promoted_all lib pg url out_dir S (r # rs) =
     promoted_by lib pg url out_dir S r #
     promoted_all lib pg url out_dir (S \<union> cand_key ` set (promoted_by lib pg url out_dir S r)) rs"

definition is_wcag_tag :: "pylib \<Rightarrow> string \<Rightarrow> bool" where
  \<comment> \<open>the tag is \<open>wcag\<close>, in any case, followed by three digits\<close>
  "is_wcag_tag lib t =
     (case chars t of
        [w, c, a, g, d1, d2, d3] \<Rightarrow>
          ascii_lower (concat [w, c, a, g]) = ''wcag'' \<and>
          re_digit lib d1 \<and> re_digit lib d2 \<and> re_digit lib d3
      | _ \<Rightarrow> False)"

definition new_at ::
  "(string option \<times> string) set \<Rightarrow> (rule_result \<times> axe_node) list \<Rightarrow> nat \<Rightarrow> bool" where
  \<comment> \<open>the node at position \<open>i\<close> has a selector, and its key is neither in \<open>S\<close> nor the key
     of an earlier node with a selector\<close>
  "new_at S xs i =
     (has_selector (xs ! i) \<and>
      node_key (xs ! i) \<notin> S \<union> node_key ` set (filter has_selector (take i xs)))"

section \<open>The review pass (\<open>rag_reviewer.py\<close>)\<close>

subsection \<open>The primary success criterion of a candidate\<close>

fun sc_match ::
  "'a unidata_scheme \<Rightarrow> string list \<Rightarrow> (string \<times> string \<times> string) option" where
  \<comment> \<open>\<open>(\d)\.(\d)\.(\d)\<close> against a list of characters, from its first character on\<close>
  "sc_match lib (d1 # p1 # d2 # p2 # d3 # rest) =
     (if re_digit lib d1 \<and> p1 = ''.'' \<and> re_digit lib d2 \<and> p2 = ''.'' \<and> re_digit lib d3
      then Some (d1, d2, d3) else None)"
| "sc_match lib _ = None"

fun re_search :: "('c list \<Rightarrow> 'g option) \<Rightarrow> 'c list \<Rightarrow> 'g option" where
  \<comment> \<open>\<open>pattern.search(s)\<close>: the match at the leftmost position that has one\<close>
  "re_search m [] = m []"
| "re_search m (c # cs) = (case m (c # cs) of Some g \<Rightarrow> Some g | None \<Rightarrow> re_search m cs)"

fun remove_sc :: "string \<Rightarrow> string" where
  \<comment> \<open>\<open>s.replace("sc-", "")\<close>\<close>
  "remove_sc (s # c # d # rest) =
     (if [s, c, d] = ''sc-'' then remove_sc rest else s # remove_sc (c # d # rest))"
| "remove_sc xs = xs"

definition norm_sc_from_topic :: "pylib \<Rightarrow> string \<Rightarrow> string" where
  "norm_sc_from_topic lib tp =
     (let t = strip tp in
      case re_search (sc_match lib) (chars t) of
        Some g \<Rightarrow> join_dots g
      | None \<Rightarrow>
          (case re_search (wcag_match lib True) (chars t) of
             Some g \<Rightarrow> join_dots g
           | None \<Rightarrow>
               (case re_search (sc_match lib) (chars (strip (remove_sc (lower lib t)))) of
                  Some g \<Rightarrow> join_dots g
                | None \<Rightarrow> [])))"

definition scs_from_candidate :: "pylib \<Rightarrow> candidate \<Rightarrow> string \<times> string list" where
  "scs_from_candidate lib c =
     (let scs = List.map_filter (\<lambda>t. map_option join_dots (wcag_groups lib True t)) (sc_list c)
      in (case scs of s # _ \<Rightarrow> s | [] \<Rightarrow> norm_sc_from_topic lib (topic c), scs))"

subsection \<open>The files\<close>

text \<open>
  The files the review pass reads and writes. \<open>files\<close> maps a path that exists to what
  reading it gives: its text, or the exception \<open>read_text\<close> raises on it; reading a path
  that does not exist raises \<open>missing_file\<close> of the path. \<open>kb_files\<close> is what reading
  each file \<open>wcag_lib/*.json\<close> gives, in the order \<open>glob\<close> lists them. \<open>write_log\<close>
  holds the calls of \<open>write_text\<close> so far (path and text), oldest first.

  \<open>Path.write_text\<close> opens the file for writing, which empties it, writes the text and
  closes the file. The call may fail: \<open>outcome\<close> says, for the number of calls made
  before and the path, whether the text is written, whether opening raises (the file is
  then as it was), or whether writing raises after the file was emptied and some bytes of
  the text were written. \<open>mkdir_error\<close> says whether creating a directory raises.
\<close>

datatype write_outcome = Written | OpenFails exn | WriteFails exn nat

record world =
  files :: "string \<rightharpoonup> exn + string"
  missing_file :: "string \<Rightarrow> exn"
  kb_files :: "(exn + string) list"
  write_log :: "(string \<times> string) list"
  outcome :: "nat \<Rightarrow> string \<Rightarrow> write_outcome"
  mkdir_error :: "string \<Rightarrow> exn option"

definition write_text :: "string \<Rightarrow> string \<Rightarrow> world \<Rightarrow> exn option \<times> world" where
  \<comment> \<open>the exception raised, if any, and the files after the call\<close>
  "write_text path content w =
     (case outcome w (length (write_log w)) path of
        Written \<Rightarrow>
          (None, w \<lparr> files := (files w)(path \<mapsto> Inr content),
                     write_log := write_log w @ [(path, content)] \<rparr>)
      | OpenFails e \<Rightarrow>
          (Some e, w \<lparr> write_log := write_log w @ [(path, content)] \<rparr>)
      | WriteFails e n \<Rightarrow>
          (Some e, w \<lparr> files := (files w)(path \<mapsto> Inr (take n content)),
                       write_log := write_log w @ [(path, content)] \<rparr>))"

definition read_text :: "world \<Rightarrow> string \<Rightarrow> exn + string" where
  "read_text w path = (case files w path of None \<Rightarrow> Inl (missing_file w path) | Some r \<Rightarrow> r)"

subsection \<open>The knowledge base\<close>

definition load_techniques :: "pylib \<Rightarrow> world \<Rightarrow> json list" where
  \<comment> \<open>a file that cannot be read or parsed is left out; whatever value a file parses to
     is kept\<close>
  "load_techniques lib w =
     List.map_filter
       (\<lambda>r. case r of
               Inl e \<Rightarrow> None
             | Inr s \<Rightarrow> (case json_loads lib s of Inl e \<Rightarrow> None | Inr v \<Rightarrow> Some v))
       (kb_files w)"

definition type_name :: "pylib \<Rightarrow> json \<Rightarrow> string" where
  \<comment> \<open>\<open>type(v).__name__\<close>\<close>
  "type_name lib v =
     (case v of
        JNull \<Rightarrow> ''NoneType''
      | JBool b \<Rightarrow> ''bool''
      | JNum x \<Rightarrow> num_type_name lib x
      | JStr s \<Rightarrow> ''str''
      | JArr xs \<Rightarrow> ''list''
      | JObj kvs \<Rightarrow> ''dict'')"

definition quoted :: "string \<Rightarrow> string" where
  "quoted s = [CHR 0x27] @ s @ [CHR 0x27]"

definition no_attribute :: "pylib \<Rightarrow> json \<Rightarrow> string \<Rightarrow> exn" where
  \<comment> \<open>the \<open>AttributeError\<close> of \<open>v.name\<close> for a value without that attribute\<close>
  "no_attribute lib v name =
     Exn AttributeError
       (quoted (type_name lib v) @ '' object has no attribute '' @ quoted name)"

definition py_iter :: "pylib \<Rightarrow> json \<Rightarrow> exn + json list" where
  \<comment> \<open>\<open>for x in v\<close>: the elements of a list, the characters of a string, the keys of a
     dict\<close>
  "py_iter lib v =
     (case v of
        JArr xs \<Rightarrow> Inr xs
      | JStr s \<Rightarrow> Inr (map JStr (chars s))
      | JObj kvs \<Rightarrow> Inr (map (\<lambda>kv. JStr (fst kv)) kvs)
      | _ \<Rightarrow> Inl (Exn TypeError (quoted (type_name lib v) @ '' object is not iterable'')))"

definition tech_topic :: "pylib \<Rightarrow> (string \<times> json) list \<Rightarrow> exn + string" where
  \<comment> \<open>\<open>(t.get("topic") or "").lower()\<close>\<close>
  "tech_topic lib kvs =
     (case map_of kvs ''topic'' of
        None \<Rightarrow> Inr []
      | Some v \<Rightarrow>
          if \<not> truthy v then Inr []
          else (case v of JStr s \<Rightarrow> Inr (lower lib s) | _ \<Rightarrow> Inl (no_attribute lib v ''lower'')))"

definition tech_matches :: "pylib \<Rightarrow> string \<Rightarrow> json \<Rightarrow> exn + bool" where
  \<comment> \<open>lines 52 to 54: \<open>f"sc-{sc_l}" in tags or sc_l in tags or sc_l in topic\<close>\<close>
  "tech_matches lib sc_l t =
     (case t of
        JObj kvs \<Rightarrow>
          (case py_iter lib (case map_of kvs ''tags'' of None \<Rightarrow> JArr [] | Some v \<Rightarrow> v) of
             Inl e \<Rightarrow> Inl e
           | Inr xs \<Rightarrow>
               (case tech_topic lib kvs of
                  Inl e \<Rightarrow> Inl e
                | Inr tp \<Rightarrow>
                    Inr (''sc-'' @ sc_l \<in> set (map (\<lambda>x. lower lib (str_of lib x)) xs) \<or>
                         sc_l \<in> set (map (\<lambda>x. lower lib (str_of lib x)) xs) \<or>
                         contains sc_l tp)))
      | _ \<Rightarrow> Inl (no_attribute lib t ''get''))"

fun retrieve_loop :: "pylib \<Rightarrow> string \<Rightarrow> json list \<Rightarrow> exn + (string \<times> json) list" where
  \<comment> \<open>\<open>for t in techniques\<close>; the empty list is the dict \<open>{}\<close>\<close>
  "retrieve_loop lib sc_l [] = Inr []"
| "retrieve_loop lib sc_l (t # ts) =
     (case tech_matches lib sc_l t of
        Inl e \<Rightarrow> Inl e
      | Inr found \<Rightarrow>
          if found then Inr (case t of JObj kvs \<Rightarrow> kvs | _ \<Rightarrow> [])
          else retrieve_loop lib sc_l ts)"

definition retrieve_for_sc :: "pylib \<Rightarrow> string \<Rightarrow> json list \<Rightarrow> exn + (string \<times> json) list" where
  "retrieve_for_sc lib sc techniques = retrieve_loop lib (lower lib sc) techniques"

definition synth_context :: "string \<Rightarrow> candidate \<Rightarrow> (string \<times> json) list" where
  "synth_context sc c =
     [(''topic'', JStr (if sc \<noteq> [] then ''SC '' @ sc else ''Unmapped rule'')),
      (''do'', JArr [JStr ''Apply WCAG techniques conservatively for this SC.'',
                     JStr (''Prefer '' @ quoted ''needs-change'' @
                           '' when meaning or programmatic name is unclear.'')]),
      (''dont'', JArr [JStr ''Do not approve ambiguous or redundant alternatives.'',
                       JStr ''Do not rely on visual presentation alone.'']),
      (''edge_cases'', JArr [])]"

definition append_do :: "string \<Rightarrow> (string \<times> json) list \<Rightarrow> (string \<times> json) list" where
  \<comment> \<open>\<open>tech_doc.setdefault("do", []).append(s)\<close> on the synthesized document, whose
     \<open>do\<close> is a list\<close>
  "append_do s d =
     map (\<lambda>kv. if fst kv = ''do''
                then (fst kv, (case snd kv of JArr xs \<Rightarrow> JArr (xs @ [JStr s]) | v \<Rightarrow> v))
                else kv) d"

subsection \<open>The prompt (\<open>build_prompt\<close>)\<close>

definition opt_str :: "string option \<Rightarrow> json" where
  "opt_str v = (case v of None \<Rightarrow> JNull | Some s \<Rightarrow> JStr s)"

definition doc_get :: "string \<Rightarrow> (string \<times> json) list \<Rightarrow> json" where
  \<comment> \<open>\<open>tech_doc.get(k)\<close>\<close>
  "doc_get k d = (case map_of d k of None \<Rightarrow> JNull | Some v \<Rightarrow> v)"

definition effective_doc ::
  "string \<Rightarrow> (string \<times> json) list \<Rightarrow> candidate \<Rightarrow> (string \<times> json) list" where
  \<comment> \<open>\<open>if not tech_doc\<close>: a synthesized document, with the help text and URL of the rule\<close>
  "effective_doc sc tech_doc c =
     (if tech_doc \<noteq> [] then tech_doc
      else
        (let d0 = synth_context sc c;
             d1 = (if or_empty (axe_help c) \<noteq> []
                   then append_do (''Consider axe help: '' @ or_empty (axe_help c)) d0 else d0);
             d2 = (if or_empty (axe_help_url c) \<noteq> []
                   then append_do (''Ref: '' @ or_empty (axe_help_url c)) d1 else d1)
         in d2))"

definition techniques_context :: "pylib \<Rightarrow> (string \<times> json) list \<Rightarrow> string" where
  "techniques_context lib d =
     json_dumps_indent lib
       (JObj [(''topic'', doc_get ''topic'' d), (''do'', doc_get ''do'' d),
              (''dont'', doc_get ''dont'' d), (''edge_cases'', doc_get ''edge_cases'' d)])"

definition why_pack :: "candidate \<Rightarrow> json" where
  "why_pack c =
     JObj [(''failureSummary'', opt_str (failureSummary c)),
           (''why_any'', JArr (map JStr (why_any c))),
           (''why_all'', JArr (map JStr (why_all c))),
           (''why_none'', JArr (map JStr (why_none c))),
           (''page_url'', JStr (page_url c))]"

definition fmt_vars ::
  "pylib \<Rightarrow> string \<Rightarrow> (string \<times> json) list \<Rightarrow> candidate \<Rightarrow> (string \<times> json) list" where
  "fmt_vars lib sc d c =
     [(''topic_label'', JStr (if sc \<noteq> [] then ''SC '' @ sc
                              else if topic c \<noteq> [] then topic c else ''Unmapped'')),
      (''techniques_context'', JStr (techniques_context lib d)),
      (''selector'', JStr (selector c)),
      (''html_snippet'', JStr (take_cp 1200 (html_snippet c))),
      (''attributes'', JStr (json_dumps lib (JObj (map (\<lambda>kv. (fst kv, JStr (snd kv))) (attributes c))))),
      (''role_name'', JStr (role_name_guess c)),
      (''nearby_text'', JStr (take_cp 800 (nearby_text c))),
      (''acc_snapshot'', JStr (take_cp 1200 (json_dumps lib (acc_snapshot c)))),
      (''rule_id'', opt_str (axe_rule_id c)),
      (''axe_help'', opt_str (axe_help c)),
      (''impact'', opt_str (impact c))]"

definition placeholder_error :: "string \<Rightarrow> exn" where
  \<comment> \<open>the \<open>RuntimeError\<close> raised for a \<open>KeyError\<close> whose text is \<open>m\<close>\<close>
  "placeholder_error m =
     Exn RuntimeError
       (''Template formatting error near placeholder '' @ m @
        ''. You likely have an unescaped '' @ [CHR 0x27] @ ''{'' @ [CHR 0x27] @ '' or '' @
        [CHR 0x27] @ ''}'' @ [CHR 0x27] @ '' in the template. '' @
        ''Double all literal braces in JSON examples (use '' @ [CHR 0x27] @ ''{{'' @
        [CHR 0x27] @ '' and '' @ [CHR 0x27] @ ''}}'' @ [CHR 0x27] @ '').'')"

definition malformed_error :: exn where
  \<comment> \<open>the \<open>RuntimeError\<close> raised for a \<open>ValueError\<close>\<close>
  "malformed_error =
     Exn RuntimeError
       (''Template formatting error (invalid format string). '' @
        ''Ensure all literal braces are escaped as '' @ [CHR 0x27] @ ''{{'' @ [CHR 0x27] @
        '' and '' @ [CHR 0x27] @ ''}}'' @ [CHR 0x27] @ ''.'')"

fun is_a :: "exn_class \<Rightarrow> exn_class \<Rightarrow> bool" where
  \<comment> \<open>what an \<open>except\<close> clause for the second class catches: \<open>JSONDecodeError\<close> is a
     subclass of \<open>ValueError\<close>\<close>
  "is_a JSONDecodeError ValueError = True"
| "is_a k base = (k = base)"

definition build_prompt ::
  "pylib \<Rightarrow> world \<Rightarrow> string \<Rightarrow> string \<Rightarrow> (string \<times> json) list \<Rightarrow> candidate \<Rightarrow> exn + string" where
  "build_prompt lib w template_path sc tech_doc c =
     (let d = effective_doc sc tech_doc c in
      case read_text w template_path of
        Inl e \<Rightarrow> Inl e
      | Inr tpl \<Rightarrow>
          (case str_format lib tpl (fmt_vars lib sc d c) of
             Inl (Exn k m) \<Rightarrow>
               if is_a k KeyError then Inl (placeholder_error m)
               else if is_a k ValueError then Inl malformed_error
               else Inl (Exn k m)
           | Inr prompt \<Rightarrow>
               Inr (prompt @ [newline, newline] @ ''AXE_DIAGNOSTICS:'' @ [newline] @
                    json_dumps_indent lib (why_pack c))))"

subsection \<open>The verdict (\<open>run_llm\<close>)\<close>

record env =
  A11Y_USE_LLM :: "string option"
  OPENAI_API_KEY :: "string option"
  A11Y_SKIP_BEST_PRACTICE :: "string option"

definition use_live_llm :: "env \<Rightarrow> bool" where
  "use_live_llm ev = (A11Y_USE_LLM ev = Some ''1'' \<and> or_empty (OPENAI_API_KEY ev) \<noteq> [])"

definition py_find :: "char \<Rightarrow> string \<Rightarrow> int" where
  \<comment> \<open>\<open>s.find(c)\<close>: the first index of \<open>c\<close>, or -1\<close>
  "py_find c s = (if c \<in> set s then int (length (takeWhile (\<lambda>x. x \<noteq> c) s)) else - 1)"

definition py_rfind :: "char \<Rightarrow> string \<Rightarrow> int" where
  \<comment> \<open>\<open>s.rfind(c)\<close>: the last index of \<open>c\<close>, or -1\<close>
  "py_rfind c s =
     (if c \<in> set s then int (length s) - 1 - int (length (takeWhile (\<lambda>x. x \<noteq> c) (rev s)))
      else - 1)"

definition extract_json :: "string \<Rightarrow> string" where
  \<comment> \<open>lines 168 to 170: \<open>text[s:e+1]\<close> from the first \<open>{\<close> to the last \<open>}\<close>\<close>
  "extract_json txt =
     (let s = py_find (CHR ''{'') txt; e = py_rfind (CHR ''}'') txt in
      if s \<noteq> - 1 \<and> e \<noteq> - 1 \<and> e > s then take (nat (e + 1 - s)) (drop (nat s) txt) else txt)"

definition py_in :: "pylib \<Rightarrow> string \<Rightarrow> json \<Rightarrow> exn + bool" where
  \<comment> \<open>\<open>k in data\<close>: a key of a dict, an element of a list, a substring of a string; a
     \<open>TypeError\<close> for any other value\<close>
  "py_in lib k v =
     (case v of
        JObj kvs \<Rightarrow> Inr (k \<in> fst ` set kvs)
      | JArr xs \<Rightarrow> Inr (JStr k \<in> set xs)
      | JStr s \<Rightarrow> Inr (contains k s)
      | _ \<Rightarrow> Inl (Exn TypeError (''argument of type '' @ quoted (type_name lib v) @
                                   '' is not iterable'')))"

definition required_keys :: "string list" where
  "required_keys = [''type'', ''verdict'', ''reason'', ''confidence'', ''techniques_used'']"

fun check_keys :: "pylib \<Rightarrow> string list \<Rightarrow> json \<Rightarrow> exn + unit" where
  \<comment> \<open>lines 172 to 174\<close>
  "check_keys lib [] data = Inr ()"
| "check_keys lib (k # ks) data =
     (case py_in lib k data of
        Inl e \<Rightarrow> Inl e
      | Inr present \<Rightarrow>
          if present then check_keys lib ks data
          else Inl (Exn ValueError (''Missing key: '' @ k)))"

text \<open>
  The call of the model (lines 152 to 165) is a function of the index of the candidate and
  the prompt: it raises, or returns the content of the first choice, which may be \<open>None\<close>.
\<close>

type_synonym chat = "nat \<Rightarrow> string \<Rightarrow> exn + string option"

definition run_llm_openai_body :: "pylib \<Rightarrow> chat \<Rightarrow> nat \<Rightarrow> string \<Rightarrow> exn + json" where
  \<comment> \<open>the body of the \<open>try\<close>\<close>
  "run_llm_openai_body lib call i prompt =
     (case call i prompt of
        Inl e \<Rightarrow> Inl e
      | Inr None \<Rightarrow> Inl (no_attribute lib JNull ''strip'')
      | Inr (Some content) \<Rightarrow>
          (case json_loads lib (extract_json (strip content)) of
             Inl e \<Rightarrow> Inl e
           | Inr data \<Rightarrow>
               (case check_keys lib required_keys data of Inl e \<Rightarrow> Inl e | Inr u \<Rightarrow> Inr data)))"

definition fallback_verdict :: "string \<Rightarrow> json" where
  "fallback_verdict m =
     JObj [(''type'', JStr ''informative''),
           (''verdict'', JStr ''needs-change''),
           (''reason'', JStr (''LLM fallback (parse/error): '' @ m)),
           (''confidence'', JNum (4 / 10)),
           (''techniques_used'', JArr [JStr ''fallback''])]"

definition run_llm_openai :: "pylib \<Rightarrow> chat \<Rightarrow> nat \<Rightarrow> string \<Rightarrow> json" where
  "run_llm_openai lib call i prompt =
     (case run_llm_openai_body lib call i prompt of
        Inl e \<Rightarrow> fallback_verdict (exn_str e)
      | Inr data \<Rightarrow> data)"

definition stub_verdict :: json where
  "stub_verdict =
     JObj [(''type'', JStr ''informative''),
           (''verdict'', JStr ''needs-change''),
           (''reason'', JStr ''Demo verdict (no live LLM or A11Y_USE_LLM=0).''),
           (''confidence'', JNum (5 / 10)),
           (''techniques_used'', JArr [JStr ''demo-only''])]"

definition run_llm :: "pylib \<Rightarrow> env \<Rightarrow> chat \<Rightarrow> nat \<Rightarrow> string \<Rightarrow> json" where
  "run_llm lib ev call i prompt =
     (if use_live_llm ev then run_llm_openai lib call i prompt else stub_verdict)"

subsection \<open>The pass over the candidates (\<open>review\<close>)\<close>

definition hex_digit :: "nat \<Rightarrow> char" where
  "hex_digit n = ''0123456789abcdef'' ! n"

definition hexdigest :: "256 word \<Rightarrow> string" where
  \<comment> \<open>the 64 hexadecimal digits of the digest, the most significant first\<close>
  "hexdigest h = map (\<lambda>i. hex_digit (unat (drop_bit (4 * (63 - i)) h AND 15))) [0..<64]"

definition prompt_hash_of :: "pylib \<Rightarrow> string \<Rightarrow> string" where
  \<comment> \<open>\<open>sha256(prompt.encode("utf-8")).hexdigest()[:16]\<close>\<close>
  "prompt_hash_of lib prompt = take 16 (hexdigest (sha256 lib prompt))"

record verdict_record =
  v_page_url :: string
  v_topic :: string
  v_SC :: string
  v_sc_list :: "string list"
  v_selector :: string
  v_axe_rule_id :: "string option"
  v_impact :: "string option"
  v_ai_verdict :: json
  v_screenshot :: "string option"
  v_axe_help_url :: "string option"
  v_prompt_hash :: string

definition record_json :: "verdict_record \<Rightarrow> json" where
  "record_json r =
     JObj [(''page_url'', JStr (v_page_url r)),
           (''topic'', JStr (v_topic r)),
           (''SC'', JStr (v_SC r)),
           (''sc_list'', JArr (map JStr (v_sc_list r))),
           (''selector'', JStr (v_selector r)),
           (''axe_rule_id'', opt_str (v_axe_rule_id r)),
           (''impact'', opt_str (v_impact r)),
           (''ai_verdict'', v_ai_verdict r),
           (''screenshot'', opt_str (v_screenshot r)),
           (''axe_help_url'', opt_str (v_axe_help_url r)),
           (''prompt_hash'', JStr (v_prompt_hash r))]"

fun dec :: "nat \<Rightarrow> string" where
  \<comment> \<open>a number in decimal\<close>
  "dec n = (if n < 10 then [''0123456789'' ! n] else dec (n div 10) @ [''0123456789'' ! (n mod 10)])"

definition pad3 :: "nat \<Rightarrow> string" where
  \<comment> \<open>\<open>f"{i:03d}"\<close>\<close>
  "pad3 i = replicate (3 - length (dec i)) (CHR ''0'') @ dec i"

definition prompt_file :: "string \<Rightarrow> nat \<Rightarrow> string \<Rightarrow> candidate \<Rightarrow> string" where
  \<comment> \<open>line 229\<close>
  "prompt_file out_dir i sc c =
     out_dir @ ''/prompts/'' @ pad3 i @ ''_'' @
     (if sc \<noteq> [] then sc else if topic c \<noteq> [] then topic c else ''UNMAPPED'') @ ''_'' @
     str_opt (axe_rule_id c) @ ''.txt''"

definition prompts_dir :: "string \<Rightarrow> string" where
  "prompts_dir out_dir = out_dir @ ''/prompts''"

definition template_file :: "string \<Rightarrow> string" where
  "template_file base = base @ ''/prompts/semantic_review_template.txt''"

definition verdicts_file :: "string \<Rightarrow> string" where
  "verdicts_file out_dir = out_dir @ ''/ai_verdicts.json''"

definition candidates_file :: "string \<Rightarrow> string" where
  "candidates_file out_dir = out_dir @ ''/candidates.json''"

definition make_record :: "candidate \<Rightarrow> string \<Rightarrow> string list \<Rightarrow> json \<Rightarrow> string \<Rightarrow> verdict_record" where
  "make_record c sc_primary sc_all verdict h =
     \<lparr> v_page_url = page_url c,
       v_topic = topic c,
       v_SC = sc_primary,
       v_sc_list = sc_all,
       v_selector = selector c,
       v_axe_rule_id = axe_rule_id c,
       v_impact = impact c,
       v_ai_verdict = verdict,
       v_screenshot = screenshot c,
       v_axe_help_url = axe_help_url c,
       v_prompt_hash = h \<rparr>"

fun review_loop ::
  "pylib \<Rightarrow> env \<Rightarrow> chat \<Rightarrow> string \<Rightarrow> string \<Rightarrow> json list \<Rightarrow> nat \<Rightarrow> candidate list \<Rightarrow>
   verdict_record list \<Rightarrow> world \<Rightarrow> (exn + verdict_record list) \<times> world" where
  \<comment> \<open>\<open>for i, c in enumerate(candidates)\<close>, from the index \<open>i\<close> on\<close>
  "review_loop lib ev call base out_dir techniques i [] results w = (Inr results, w)"
| "review_loop lib ev call base out_dir techniques i (c # cs) results w =
     (let sc_primary = fst (scs_from_candidate lib c);
          sc_all = snd (scs_from_candidate lib c);
          is_wcag = (sc_primary \<noteq> [])
      in
      if A11Y_SKIP_BEST_PRACTICE ev = Some ''1'' \<and> \<not> is_wcag
      then review_loop lib ev call base out_dir techniques (Suc i) cs results w
      else
        (case (if is_wcag then retrieve_for_sc lib sc_primary techniques else Inr []) of
           Inl e \<Rightarrow> (Inl e, w)
         | Inr tech_doc \<Rightarrow>
             (case build_prompt lib w (template_file base) sc_primary tech_doc c of
                Inl e \<Rightarrow> (Inl e, w)
              | Inr prompt \<Rightarrow>
                  (case write_text (prompt_file out_dir i sc_primary c) prompt w of
                     (Some e, w1) \<Rightarrow> (Inl e, w1)
                   | (None, w1) \<Rightarrow>
                       (let verdict = run_llm lib ev call i prompt;
                            h = prompt_hash_of lib prompt
                        in review_loop lib ev call base out_dir techniques (Suc i) cs
                             (results @ [make_record c sc_primary sc_all verdict h]) w1)))))"

definition review ::
  "pylib \<Rightarrow> env \<Rightarrow> chat \<Rightarrow> string \<Rightarrow> string \<Rightarrow> world \<Rightarrow> (exn + nat) \<times> world" where
  \<comment> \<open>the number returned is \<open>len(results)\<close>\<close>
  "review lib ev call base out_dir w =
     (case files w (candidates_file out_dir) of
        None \<Rightarrow>
          (Inl (Exn FileNotFoundError ''candidates.json not found; run axe_runner first.''), w)
      | Some (Inl e) \<Rightarrow> (Inl e, w)
      | Some (Inr raw) \<Rightarrow>
          (case read_candidates lib raw of
             Inl e \<Rightarrow> (Inl e, w)
           | Inr cands \<Rightarrow>
               (case mkdir_error w (prompts_dir out_dir) of
                  Some e \<Rightarrow> (Inl e, w)
                | None \<Rightarrow>
                    (case review_loop lib ev call base out_dir (load_techniques lib w) 0 cands [] w of
                       (Inl e, w') \<Rightarrow> (Inl e, w')
                     | (Inr results, w') \<Rightarrow>
                         (case write_text (verdicts_file out_dir)
                                 (json_dumps_indent_ascii lib (JArr (map record_json results))) w' of
                            (Some e, w'') \<Rightarrow> (Inl e, w'')
                          | (None, w'') \<Rightarrow> (Inr (length results), w''))))))"

subsection \<open>The review pass, as the specification words it\<close>



definition skipped :: "pylib \<Rightarrow> env \<Rightarrow> candidate \<Rightarrow> bool" where
  \<comment> \<open>the flag to skip candidates without a success criterion is set, and the candidate
     has none\<close>
  "skipped lib ev c =
     (A11Y_SKIP_BEST_PRACTICE ev = Some ''1'' \<and> fst (scs_from_candidate lib c) = [])"

definition hex_chars :: string where
  "hex_chars = ''0123456789abcdef''"

definition processed :: "pylib \<Rightarrow> env \<Rightarrow> candidate list \<Rightarrow> (nat \<times> candidate) list" where
  \<comment> \<open>the candidates the pass does not skip, each with its index in the list\<close>
  "processed lib ev cs = filter (\<lambda>ic. \<not> skipped lib ev (snd ic)) (enumerate 0 cs)"

definition written_for ::
  "pylib \<Rightarrow> env \<Rightarrow> chat \<Rightarrow> string \<Rightarrow> nat \<times> candidate \<Rightarrow>
   verdict_record \<times> (string \<times> string) \<Rightarrow> bool" where
  \<comment> \<open>the record and the prompt file of the candidate \<open>c\<close> at index \<open>i\<close>: the file is
     the one line 229 names, and the record holds the fields of lines 238 to 250, with
     the verdict on the text of that file and the hash of that text\<close>
  "written_for lib ev call out_dir ic rp =
     (fst (snd rp) =
        prompt_file out_dir (fst ic) (fst (scs_from_candidate lib (snd ic))) (snd ic) \<and>
      fst rp =
        \<lparr> v_page_url = page_url (snd ic),
          v_topic = topic (snd ic),
          v_SC = fst (scs_from_candidate lib (snd ic)),
          v_sc_list = snd (scs_from_candidate lib (snd ic)),
          v_selector = selector (snd ic),
          v_axe_rule_id = axe_rule_id (snd ic),
          v_impact = impact (snd ic),
          v_ai_verdict = run_llm lib ev call (fst ic) (snd (snd rp)),
          v_screenshot = screenshot (snd ic),
          v_axe_help_url = axe_help_url (snd ic),
          v_prompt_hash = prompt_hash_of lib (snd (snd rp)) \<rparr>)"

definition artifact_of :: "verdict_record list \<Rightarrow> json" where
  \<comment> \<open>the array of the records, each an object with the eleven keys of lines 238 to 250\<close>
  "artifact_of rs =
     JArr (map (\<lambda>r.
       JObj [(''page_url'', JStr (v_page_url r)),
             (''topic'', JStr (v_topic r)),
             (''SC'', JStr (v_SC r)),
             (''sc_list'', JArr (map JStr (v_sc_list r))),
             (''selector'', JStr (v_selector r)),
             (''axe_rule_id'', (case v_axe_rule_id r of None \<Rightarrow> JNull | Some s \<Rightarrow> JStr s)),
             (''impact'', (case v_impact r of None \<Rightarrow> JNull | Some s \<Rightarrow> JStr s)),
             (''ai_verdict'', v_ai_verdict r),
             (''screenshot'', (case v_screenshot r of None \<Rightarrow> JNull | Some s \<Rightarrow> JStr s)),
             (''axe_help_url'', (case v_axe_help_url r of None \<Rightarrow> JNull | Some s \<Rightarrow> JStr s)),
             (''prompt_hash'', JStr (v_prompt_hash r))]) rs)"

section \<open>A sample scan\<close>

text \<open>
  A page and a scan result to run the definitions on: the rule \<open>image-alt\<close> in the
  bucket violations with the tag \<open>wcag111\<close> and the node \<open>img#logo\<close> listed twice, a
  rule \<open>region\<close> without a WCAG tag in the bucket incomplete, and the rule \<open>link-name\<close>
  in the bucket passes, whose link \<open>a#more\<close> reads "Click Here" between two blanks
  and a no-break space.
\<close>

definition demo_page :: page where
  "demo_page =
     \<lparr> query_selector = (\<lambda>sel. Inr True),
       eval_attributes = (\<lambda>sel. Inr []),
       eval_closest = (\<lambda>sel. Inr False),
       inner_text = (\<lambda>sel. Inr (if sel = ''a#more'' then ''  Click Here'' @ [CHR 0xC2, CHR 0xA0]
                                 else if sel = ''a#again'' then ''READ MORE'' else ''Home'')),
       get_accessibility_snapshot = (\<lambda>sel. JObj []),
       get_nearby_text = (\<lambda>sel. []),
       get_role_name_guess = (\<lambda>sel. []),
       crop_element_screenshot = (\<lambda>sel path. None) \<rparr>"

definition demo_node :: "string \<Rightarrow> axe_node" where
  "demo_node sel =
     \<lparr> n_target = Some [sel], n_html = None, n_failureSummary = None,
       n_any = [], n_all = [], n_none = [] \<rparr>"

definition demo_rule :: "string \<Rightarrow> string list \<Rightarrow> axe_node list \<Rightarrow> rule_result" where
  "demo_rule rid tgs ns =
     \<lparr> r_id = Some rid, r_tags = tgs, r_help = None, r_helpUrl = None, r_impact = None,
       r_nodes = ns \<rparr>"

definition demo_payload :: axe_payload where
  "demo_payload =
     \<lparr> violations = [demo_rule ''image-alt'' [''cat.text-alternatives'', ''wcag111'']
                       [demo_node ''img#logo'', demo_node ''img#logo'']],
       incomplete = [demo_rule ''region'' [''best-practice''] [demo_node ''div#main'', demo_node '''']],
       passes = [demo_rule ''link-name'' [''wcag244'', ''wcag412'']
                   [demo_node ''a#home'', demo_node ''a#more'']] \<rparr>"

definition demo_candidate :: "string \<Rightarrow> string \<Rightarrow> string list \<Rightarrow> string \<Rightarrow> string \<Rightarrow> candidate" where
  "demo_candidate bkt tpc scs rid sel =
     \<lparr> page_url = ''http://example.org'', bucket = bkt, topic = tpc, sc_list = scs,
       axe_rule_id = Some rid, axe_help = None, axe_help_url = None, impact = None,
       selector = sel, html_snippet = [], attributes = [], role_name_guess = [],
       nearby_text = [], acc_snapshot = JObj [], screenshot = None, failureSummary = None,
       why_any = [], why_all = [], why_none = [] \<rparr>"

definition demo_candidates :: "candidate list" where
  "demo_candidates =
     [demo_candidate ''must_review'' ''SC-1.1.1'' [''1.1.1''] ''image-alt'' ''img#logo'',
      demo_candidate ''must_review'' ''BEST_PRACTICE'' [] ''region'' ''div#main'',
      demo_candidate ''semantic_review'' ''SC-2.4.4'' [''2.4.4'', ''4.1.2''] ''link-name'' ''a#more'']"

fun sep_by :: "string \<Rightarrow> string list \<Rightarrow> string" where
  "sep_by s [] = []"
| "sep_by s [x] = x"
| "sep_by s (x # y # ys) = x @ s @ sep_by s (y # ys)"

fun demo_dumps :: "json \<Rightarrow> string" where
  \<comment> \<open>a JSON text of a value, for the sample library\<close>
  "demo_dumps JNull = ''null''"
| "demo_dumps (JBool b) = (if b then ''true'' else ''false'')"
| "demo_dumps (JNum x) = (if x = 1 / 2 then ''0.5'' else if x = 2 / 5 then ''0.4'' else ''0'')"
| "demo_dumps (JStr s) = [CHR 0x22] @ s @ [CHR 0x22]"
| "demo_dumps (JArr xs) = ''['' @ sep_by '', '' (map (\<lambda>x. demo_dumps x) xs) @ '']''"
| "demo_dumps (JObj kvs) =
     ''{'' @ sep_by '', '' (map (\<lambda>kv. [CHR 0x22] @ fst kv @ [CHR 0x22] @ '': '' @ demo_dumps (snd kv)) kvs)
     @ ''}''"

definition demo_verdict :: json where
  "demo_verdict =
     JObj [(''type'', JStr ''informative''), (''verdict'', JStr ''pass''),
           (''reason'', JStr ''The alternative describes the image.''),
           (''confidence'', JNum (1 / 2)), (''techniques_used'', JArr [JStr ''H37''])]"

definition demo_names :: json where
  \<comment> \<open>an array that holds the five names\<close>
  "demo_names = JArr (map JStr [''type'', ''verdict'', ''reason'', ''confidence'', ''techniques_used''])"

definition demo_lib :: pylib where
  "demo_lib =
     \<lparr> uni_lower = ascii_lower,
       uni_decimal = (\<lambda>ch. False),
       py_str = (\<lambda>v. ''?''),
       num_type_name = (\<lambda>x. if x = 7 then ''int'' else ''float''),
       json_dumps = demo_dumps,
       json_dumps_indent = demo_dumps,
       json_dumps_indent_ascii = demo_dumps,
       json_loads = (\<lambda>s. if s = ''{}'' then Inr (JObj [])
                          else if s = demo_dumps demo_verdict then Inr demo_verdict
                          else if s = demo_dumps demo_names then Inr demo_names
                          else if s = ''7'' then Inr (JNum 7)
                          else Inl (Exn JSONDecodeError ''Expecting value'')),
       read_candidates = (\<lambda>s. if s = ''[...]'' then Inr demo_candidates
                               else Inl (Exn JSONDecodeError ''Expecting value'')),
       str_format = (\<lambda>t kv.
          if contains ''{bogus}'' t then Inl (Exn KeyError (quoted ''bogus''))
          else if contains ''{}'' t
          then Inl (Exn IndexError ''Replacement index 0 out of range for positional args tuple'')
          else if CHR ''{'' \<in> set t
          then Inl (Exn ValueError (''Single '' @ quoted ''{'' @ '' encountered in format string''))
          else if CHR ''}'' \<in> set t
          then Inl (Exn ValueError (''Single '' @ quoted ''}'' @ '' encountered in format string''))
          else Inr t),
       sha256 = (\<lambda>s. of_nat (length s)) \<rparr>"

text \<open>
  A scan result whose bucket passes lists the rule \<open>link-name\<close> twice, each entry with a
  vague link of its own.
\<close>

definition demo_passes_twice :: axe_payload where
  "demo_passes_twice =
     \<lparr> violations = [],
       incomplete = [],
       passes = [demo_rule ''link-name'' [] [demo_node ''a#more''],
                 demo_rule ''link-name'' [] [demo_node ''a#again'']] \<rparr>"

text \<open>
  A scan result in which the vague link \<open>a#more\<close> is a node of the rule \<open>link-name\<close>
  both in the bucket violations and in the bucket passes.
\<close>

definition demo_link_seen :: axe_payload where
  "demo_link_seen =
     \<lparr> violations = [demo_rule ''link-name'' [] [demo_node ''a#more'']],
       incomplete = [],
       passes = [demo_rule ''link-name'' [] [demo_node ''a#more'', demo_node ''a#again'']] \<rparr>"

text \<open>
  A run of the review pass: the template, the candidates artifact and an earlier verdicts
  artifact are on disk; the model is not called (stub mode), or its call fails.
\<close>

definition demo_world :: "string \<Rightarrow> world" where
  "demo_world tpl =
     \<lparr> files = [template_file ''repo'' \<mapsto> Inr tpl,
                candidates_file ''out'' \<mapsto> Inr ''[...]'',
                verdicts_file ''out'' \<mapsto> Inr ''[old]''],
       missing_file = (\<lambda>p. Exn FileNotFoundError (''[Errno 2] No such file or directory: '' @ quoted p)),
       kb_files = [],
       write_log = [],
       outcome = (\<lambda>n p. Written),
       mkdir_error = (\<lambda>p. None) \<rparr>"

definition demo_env :: "bool \<Rightarrow> bool \<Rightarrow> env" where
  "demo_env live skip =
     \<lparr> A11Y_USE_LLM = (if live then Some ''1'' else None),
       OPENAI_API_KEY = (if live then Some ''sk-demo'' else None),
       A11Y_SKIP_BEST_PRACTICE = (if skip then Some ''1'' else None) \<rparr>"

definition demo_chat :: chat where
  "demo_chat = (\<lambda>i prompt.
     if i = 0 then Inl (Exn OtherError ''Connection error.'')
     else if i = 1 then Inr (Some ''not json'')
     else if i = 2 then Inr (Some '' {} '')
     else if i = 3 then Inr (Some (''Here is the verdict: '' @ demo_dumps demo_verdict @ '' Done.''))
     else if i = 4 then Inr (Some (demo_dumps demo_names))
     else if i = 5 then Inr (Some ''7'')
     else Inr None)"

section \<open>Properties of the candidate selector\<close>

lemma cand_key_candidate_of [simp]:
  "cand_key (candidate_of lib pg url out_dir bkt x) = node_key x"
  by (simp add: cand_key_def candidate_of_def make_candidate_def node_key_def)

lemma bucket_candidate_of [simp]:
  "bucket (candidate_of lib pg url out_dir bkt x) = bkt"
  by (simp add: candidate_of_def make_candidate_def)

lemma admit_Inr:
  assumes "admit lib pg url out_dir bkt r (extract_scs lib (r_tags r))
             (topic_of (extract_scs lib (r_tags r))) n (first_target n) st = Inr st'"
  shows "st' = \<lparr> seen = insert (node_key (r, n)) (seen st),
                  candidates = candidates st @ [candidate_of lib pg url out_dir bkt (r, n)] \<rparr>"
  using assms
  by (auto simp: admit_def candidate_of_def attrs_or_empty_def node_key_def split: sum.splits)

lemma select_new_keys:
  "node_key ` set (select_new S xs) \<union> S = node_key ` set (filter has_selector xs) \<union> S"
proof (induction xs arbitrary: S)
  case Nil
  then show ?case by simp
next
  case (Cons x xs)
  show ?case
  proof (cases "has_selector x \<and> node_key x \<notin> S")
    case True
    define A where "A = node_key ` set (select_new (insert (node_key x) S) xs)"
    define B where "B = node_key ` set (filter has_selector xs)"
    have "A \<union> insert (node_key x) S = B \<union> insert (node_key x) S"
      unfolding A_def B_def by (rule Cons.IH)
    then have "insert (node_key x) A \<union> S = insert (node_key x) B \<union> S"
      by blast
    with True show ?thesis by (simp add: A_def B_def)
  next
    case False
    define A where "A = node_key ` set (select_new S xs)"
    define B where "B = node_key ` set (filter has_selector xs)"
    have "A \<union> S = B \<union> S"
      unfolding A_def B_def by (rule Cons.IH)
    moreover from False have "has_selector x \<Longrightarrow> node_key x \<in> S" by blast
    ultimately show ?thesis using False by (auto simp: A_def B_def)
  qed
qed

lemma must_review_nodes_Inr:
  assumes "foldE (must_review_node lib pg url out_dir r (extract_scs lib (r_tags r))
                    (topic_of (extract_scs lib (r_tags r)))) ns st = Inr st'"
  shows "candidates st' = candidates st @
           map (candidate_of lib pg url out_dir ''must_review'')
             (select_new (seen st) (map (Pair r) ns))
       \<and> seen st' = seen st \<union> node_key ` set (select_new (seen st) (map (Pair r) ns))"
  using assms
proof (induction ns arbitrary: st)
  case Nil
  then show ?case by simp
next
  case (Cons n ns)
  let ?f = "must_review_node lib pg url out_dir r (extract_scs lib (r_tags r))
              (topic_of (extract_scs lib (r_tags r)))"
  from Cons.prems obtain st1 where s1: "?f n st = Inr st1" and rest: "foldE ?f ns st1 = Inr st'"
    by (auto split: sum.splits)
  note ih = Cons.IH [OF rest]
  show ?case
  proof (cases "has_selector (r, n) \<and> node_key (r, n) \<notin> seen st")
    case True
    with s1 have "admit lib pg url out_dir ''must_review'' r (extract_scs lib (r_tags r))
                    (topic_of (extract_scs lib (r_tags r))) n (first_target n) st = Inr st1"
      by (simp add: must_review_node_def has_selector_def node_key_def Let_def)
    from admit_Inr [OF this] True ih show ?thesis by auto
  next
    case False
    with s1 have "st1 = st"
      by (auto simp: must_review_node_def has_selector_def node_key_def Let_def split: if_splits)
    with False ih show ?thesis by auto
  qed
qed

lemma select_new_append:
  "select_new S (xs @ ys) = select_new S xs @ select_new (S \<union> node_key ` set (select_new S xs)) ys"
proof (induction xs arbitrary: S)
  case Nil
  then show ?case by simp
next
  case (Cons x xs)
  show ?case
  proof (cases "has_selector x \<and> node_key x \<notin> S")
    case True
    have "insert (node_key x) S \<union> node_key ` set (select_new (insert (node_key x) S) xs)
        = S \<union> insert (node_key x) (node_key ` set (select_new (insert (node_key x) S) xs))"
      by blast
    with True Cons.IH [of "insert (node_key x) S"] show ?thesis by simp
  next
    case False
    with Cons.IH [of S] show ?thesis by auto
  qed
qed

lemma must_review_rules_Inr:
  assumes "foldE (must_review_rule lib pg url out_dir) rs st = Inr st'"
  shows "candidates st' = candidates st @
           map (candidate_of lib pg url out_dir ''must_review'') (select_new (seen st) (rule_nodes rs))
       \<and> seen st' = seen st \<union> node_key ` set (select_new (seen st) (rule_nodes rs))"
  using assms
proof (induction rs arbitrary: st)
  case Nil
  then show ?case by (simp add: rule_nodes_def)
next
  case (Cons r rs)
  from Cons.prems obtain st1 where
    s1: "must_review_rule lib pg url out_dir r st = Inr st1" and
    rest: "foldE (must_review_rule lib pg url out_dir) rs st1 = Inr st'"
    by (auto split: sum.splits)
  from s1 have "foldE (must_review_node lib pg url out_dir r (extract_scs lib (r_tags r))
                    (topic_of (extract_scs lib (r_tags r)))) (r_nodes r) st = Inr st1"
    by (simp add: must_review_rule_def Let_def)
  note a = must_review_nodes_Inr [OF this]
  note b = Cons.IH [OF rest]
  have rn: "rule_nodes (r # rs) = map (Pair r) (r_nodes r) @ rule_nodes rs"
    by (simp add: rule_nodes_def)
  from a b show ?case
    by (simp add: rn select_new_append Un_assoc image_Un)
qed

lemma rule_nodes_append: "rule_nodes (xs @ ys) = rule_nodes xs @ rule_nodes ys"
  by (simp add: rule_nodes_def)

lemma must_review_Inr:
  assumes "must_review lib pg url out_dir p st = Inr st'"
  shows "candidates st' = candidates st @
           map (candidate_of lib pg url out_dir ''must_review'') (select_new (seen st) (review_nodes p))
       \<and> seen st' = seen st \<union> node_key ` set (select_new (seen st) (review_nodes p))"
proof -
  from assms obtain st1 where
    v: "foldE (must_review_rule lib pg url out_dir) (violations p) st = Inr st1" and
    i: "foldE (must_review_rule lib pg url out_dir) (incomplete p) st1 = Inr st'"
    by (auto simp: must_review_def split: sum.splits)
  from must_review_rules_Inr [OF v] must_review_rules_Inr [OF i] show ?thesis
    by (simp add: review_nodes_def rule_nodes_append select_new_append Un_assoc image_Un)
qed

lemma loop_admit:
  assumes "admit lib pg url out_dir ''semantic_review'' r (extract_scs lib (r_tags r))
             (topic_of (extract_scs lib (r_tags r))) n (first_target n) st = Inr st'"
  shows "candidates st' = candidates st @ [candidate_of lib pg url out_dir ''semantic_review'' (r, n)]
       \<and> seen st' = seen st \<union> cand_key ` set [candidate_of lib pg url out_dir ''semantic_review'' (r, n)]"
  using admit_Inr [OF assms] by simp

lemma link_name_loop_Inr:
  assumes "link_name_loop lib pg url out_dir r (extract_scs lib (r_tags r))
             (topic_of (extract_scs lib (r_tags r))) ns st = Inr st'"
  shows "candidates st' = candidates st @
           (case find (link_qualifies lib pg (seen st)) (map (Pair r) ns) of
              None \<Rightarrow> []
            | Some x \<Rightarrow> [candidate_of lib pg url out_dir ''semantic_review'' x])
       \<and> seen st' = seen st \<union> cand_key ` set
           (case find (link_qualifies lib pg (seen st)) (map (Pair r) ns) of
              None \<Rightarrow> []
            | Some x \<Rightarrow> [candidate_of lib pg url out_dir ''semantic_review'' x])"
  using assms
proof (induction ns)
  case Nil
  then show ?case by simp
next
  case (Cons n ns)
  show ?case
  proof (cases "link_qualifies lib pg (seen st) (r, n)")
    case True
    with Cons.prems have "admit lib pg url out_dir ''semantic_review'' r (extract_scs lib (r_tags r))
             (topic_of (extract_scs lib (r_tags r))) n (first_target n) st = Inr st'"
      by (auto simp: link_qualifies_def has_selector_def node_key_def Let_def split: sum.splits)
    from loop_admit [OF this] True show ?thesis by simp
  next
    case False
    with Cons.prems have "link_name_loop lib pg url out_dir r (extract_scs lib (r_tags r))
             (topic_of (extract_scs lib (r_tags r))) ns st = Inr st'"
      by (auto simp: link_qualifies_def has_selector_def node_key_def Let_def
               split: sum.splits if_splits)
    from Cons.IH [OF this] False show ?thesis by simp
  qed
qed

lemma image_alt_loop_Inr:
  assumes "image_alt_loop lib pg url out_dir r (extract_scs lib (r_tags r))
             (topic_of (extract_scs lib (r_tags r))) ns st = Inr st'"
  shows "candidates st' = candidates st @
           (case find (image_qualifies lib pg (seen st)) (map (Pair r) ns) of
              None \<Rightarrow> []
            | Some x \<Rightarrow> [candidate_of lib pg url out_dir ''semantic_review'' x])
       \<and> seen st' = seen st \<union> cand_key ` set
           (case find (image_qualifies lib pg (seen st)) (map (Pair r) ns) of
              None \<Rightarrow> []
            | Some x \<Rightarrow> [candidate_of lib pg url out_dir ''semantic_review'' x])"
  using assms
proof (induction ns)
  case Nil
  then show ?case by simp
next
  case (Cons n ns)
  show ?case
  proof (cases "image_qualifies lib pg (seen st) (r, n)")
    case True
    with Cons.prems have "admit lib pg url out_dir ''semantic_review'' r (extract_scs lib (r_tags r))
             (topic_of (extract_scs lib (r_tags r))) n (first_target n) st = Inr st'"
      by (auto simp: image_qualifies_def has_selector_def node_key_def Let_def split: sum.splits)
    from loop_admit [OF this] True show ?thesis by simp
  next
    case False
    with Cons.prems have "image_alt_loop lib pg url out_dir r (extract_scs lib (r_tags r))
             (topic_of (extract_scs lib (r_tags r))) ns st = Inr st'"
      by (auto simp: image_qualifies_def has_selector_def node_key_def Let_def
               split: sum.splits if_splits)
    from Cons.IH [OF this] False show ?thesis by simp
  qed
qed

lemma promote_rule_Inr:
  assumes "promote_rule lib pg url out_dir r st = Inr st'"
  shows "candidates st' = candidates st @ promoted_by lib pg url out_dir (seen st) r
       \<and> seen st' = seen st \<union> cand_key ` set (promoted_by lib pg url out_dir (seen st) r)"
proof -
  consider (img) "r_id r = Some ''image-alt''" | (lnk) "r_id r = Some ''link-name''"
    | (other) "r_id r \<noteq> Some ''image-alt''" "r_id r \<noteq> Some ''link-name''"
    by blast
  then show ?thesis
  proof cases
    case img
    with assms have "image_alt_loop lib pg url out_dir r (extract_scs lib (r_tags r))
             (topic_of (extract_scs lib (r_tags r))) (take 30 (r_nodes r)) st = Inr st'"
      by (auto simp: promote_rule_def Let_def split: sum.splits)
    from image_alt_loop_Inr [OF this] img show ?thesis
      by (simp add: promoted_by_def first_qualifying_def)
  next
    case lnk
    with assms have "link_name_loop lib pg url out_dir r (extract_scs lib (r_tags r))
             (topic_of (extract_scs lib (r_tags r))) (take 30 (r_nodes r)) st = Inr st'"
      by (auto simp: promote_rule_def Let_def split: sum.splits)
    from link_name_loop_Inr [OF this] lnk show ?thesis
      by (simp add: promoted_by_def first_qualifying_def)
  next
    case other
    with assms show ?thesis
      by (simp add: promote_rule_def promoted_by_def)
  qed
qed

lemma promote_rules_Inr:
  assumes "foldE (promote_rule lib pg url out_dir) rs st = Inr st'"
  shows "candidates st' = candidates st @ concat (promoted_all lib pg url out_dir (seen st) rs)
       \<and> seen st' = seen st \<union> cand_key ` set (concat (promoted_all lib pg url out_dir (seen st) rs))"
  using assms
proof (induction rs arbitrary: st)
  case Nil
  then show ?case by simp
next
  case (Cons r rs)
  from Cons.prems obtain st1 where
    s1: "promote_rule lib pg url out_dir r st = Inr st1" and
    rest: "foldE (promote_rule lib pg url out_dir) rs st1 = Inr st'"
    by (auto split: sum.splits)
  from promote_rule_Inr [OF s1] Cons.IH [OF rest] show ?case
    by (simp add: Un_assoc image_Un)
qed

lemma build_candidates_Inr:
  assumes "build_candidates lib pg url out_dir p = Inr cs"
  shows "cs = map (candidate_of lib pg url out_dir ''must_review'') (select_new {} (review_nodes p)) @
              concat (promoted_all lib pg url out_dir
                        (node_key ` set (select_new {} (review_nodes p))) (passes p))"
proof -
  from assms obtain st st' where
    m: "must_review lib pg url out_dir p \<lparr> seen = {}, candidates = [] \<rparr> = Inr st" and
    q: "foldE (promote_rule lib pg url out_dir) (passes p) st = Inr st'" and
    c: "cs = candidates st'"
    by (auto simp: build_candidates_def promote_passes_def split: sum.splits)
  from must_review_Inr [OF m] promote_rules_Inr [OF q] c show ?thesis
    by simp
qed

lemma node_key_has_selector:
  "node_key y = node_key x \<Longrightarrow> has_selector y = has_selector x"
  by (simp add: node_key_def has_selector_def)

lemma new_at_0: "new_at S (x # xs) 0 = (has_selector x \<and> node_key x \<notin> S)"
  by (simp add: new_at_def)

lemma new_at_Suc:
  "new_at S (x # xs) (Suc j) = new_at (if has_selector x then insert (node_key x) S else S) xs j"
  by (auto simp: new_at_def)

lemma select_new_index_gen:
  "select_new S xs = map (nth xs) (filter (new_at S xs) [0..<length xs])"
proof (induction xs arbitrary: S)
  case Nil
  then show ?case by simp
next
  case (Cons x xs)
  define S' where "S' = (if has_selector x then insert (node_key x) S else S)"
  have idx: "[0..<length (x # xs)] = 0 # map Suc [0..<length xs]"
    by (simp add: upt_conv_Cons map_Suc_upt del: upt_Suc)
  have shift: "(\<lambda>j. new_at S (x # xs) (Suc j)) = new_at S' xs"
    by (simp add: fun_eq_iff new_at_Suc S'_def)
  have "map (nth (x # xs)) (filter (new_at S (x # xs)) [0..<length (x # xs)]) =
        (if has_selector x \<and> node_key x \<notin> S then [x] else []) @
        map (nth xs) (filter (new_at S' xs) [0..<length xs])"
    unfolding idx by (simp add: filter_map new_at_0 shift o_def)
  also have "\<dots> = (if has_selector x \<and> node_key x \<notin> S then [x] else []) @ select_new S' xs"
    by (simp add: Cons.IH)
  also have "\<dots> = select_new S (x # xs)"
    by (auto simp: S'_def insert_absorb)
  finally show ?case by simp
qed

lemma select_new_index:
  "select_new {} xs = map (nth xs) (filter (yields_candidate xs) [0..<length xs])"
proof -
  have "new_at {} xs = yields_candidate xs"
    unfolding yields_candidate_def [abs_def] new_at_def [abs_def]
    by (auto simp: image_iff fun_eq_iff dest: node_key_has_selector)
  then show ?thesis
    by (simp only: select_new_index_gen [of "{}" xs])
qed

lemma select_new_first_occurrences:
  "select_new {} xs = filter has_selector (first_occurrences node_key xs)"
proof -
  have "filter has_selector (first_occurrences node_key xs) =
        map (nth xs) (filter (\<lambda>i. has_selector (xs ! i))
          (filter (\<lambda>i. node_key (xs ! i) \<notin> node_key ` set (take i xs)) [0..<length xs]))"
    by (simp add: first_occurrences_def filter_map o_def)
  also have "\<dots> = map (nth xs) (filter (yields_candidate xs) [0..<length xs])"
    by (simp add: yields_candidate_def [abs_def] conj_commute)
  finally show ?thesis by (simp add: select_new_index)
qed

lemma select_new_distinct:
  "distinct (map node_key (select_new S xs)) \<and> node_key ` set (select_new S xs) \<inter> S = {}"
proof (induction xs arbitrary: S)
  case Nil
  then show ?case by simp
next
  case (Cons x xs)
  show ?case
  proof (cases "has_selector x \<and> node_key x \<notin> S")
    case True
    from Cons.IH [of "insert (node_key x) S"] True show ?thesis by auto
  next
    case False
    from Cons.IH [of S] False show ?thesis by auto
  qed
qed

lemma find_Some_mem: "find P xs = Some x \<Longrightarrow> x \<in> set xs \<and> P x"
  by (induction xs) (auto split: if_splits)

lemma first_qualifying_cases:
  "first_qualifying lib pg url out_dir q r = [] \<or>
   (\<exists>n \<in> set (take 30 (r_nodes r)). q (r, n) \<and>
      first_qualifying lib pg url out_dir q r = [candidate_of lib pg url out_dir ''semantic_review'' (r, n)])"
proof (cases "find q (map (Pair r) (take 30 (r_nodes r)))")
  case None
  then show ?thesis by (simp add: first_qualifying_def)
next
  case (Some x)
  then have "x \<in> set (map (Pair r) (take 30 (r_nodes r)))" and "q x"
    by (auto dest: find_Some_mem)
  with Some show ?thesis by (auto simp: first_qualifying_def)
qed

lemma promoted_by_cases:
  "promoted_by lib pg url out_dir S r = [] \<or>
   (\<exists>n \<in> set (take 30 (r_nodes r)).
      promoted_by lib pg url out_dir S r = [candidate_of lib pg url out_dir ''semantic_review'' (r, n)] \<and>
      r_id r \<in> {Some ''image-alt'', Some ''link-name''} \<and> has_selector (r, n) \<and> node_key (r, n) \<notin> S)"
proof -
  consider (img) "r_id r = Some ''image-alt''" | (lnk) "r_id r = Some ''link-name''"
    | (other) "r_id r \<noteq> Some ''image-alt''" "r_id r \<noteq> Some ''link-name''"
    by blast
  then show ?thesis
  proof cases
    case img
    with first_qualifying_cases [of lib pg url out_dir "image_qualifies lib pg S" r] show ?thesis
      by (auto simp: promoted_by_def image_qualifies_def)
  next
    case lnk
    with first_qualifying_cases [of lib pg url out_dir "link_qualifies lib pg S" r] show ?thesis
      by (auto simp: promoted_by_def link_qualifies_def)
  next
    case other
    then show ?thesis by (simp add: promoted_by_def)
  qed
qed

lemma promoted_by_length: "length (promoted_by lib pg url out_dir S r) \<le> 1"
  using promoted_by_cases [of lib pg url out_dir S r] by auto

lemma promoted_by_keys:
  "distinct (map cand_key (promoted_by lib pg url out_dir S r)) \<and>
   cand_key ` set (promoted_by lib pg url out_dir S r) \<inter> S = {}"
  using promoted_by_cases [of lib pg url out_dir S r] by auto

lemma promoted_all_distinct:
  "distinct (map cand_key (concat (promoted_all lib pg url out_dir S rs))) \<and>
   cand_key ` set (concat (promoted_all lib pg url out_dir S rs)) \<inter> S = {}"
proof (induction rs arbitrary: S)
  case Nil
  then show ?case by simp
next
  case (Cons r rs)
  define new where "new = promoted_by lib pg url out_dir S r"
  define rest where "rest = concat (promoted_all lib pg url out_dir (S \<union> cand_key ` set new) rs)"
  have a: "distinct (map cand_key new)" "cand_key ` set new \<inter> S = {}"
    using promoted_by_keys [of lib pg url out_dir S r] by (simp_all add: new_def)
  have b: "distinct (map cand_key rest)" "cand_key ` set rest \<inter> (S \<union> cand_key ` set new) = {}"
    using Cons.IH [of "S \<union> cand_key ` set new"] by (simp_all add: rest_def)
  have "concat (promoted_all lib pg url out_dir S (r # rs)) = new @ rest"
    by (simp add: new_def rest_def)
  moreover from a b have "distinct (map cand_key (new @ rest))"
    by auto
  moreover from a b have "cand_key ` set (new @ rest) \<inter> S = {}"
    by auto
  ultimately show ?case by simp
qed

lemma build_candidates_distinct:
  assumes "build_candidates lib pg url out_dir p = Inr cs"
  shows "distinct (map cand_key cs)"
proof -
  define mr where "mr = select_new {} (review_nodes p)"
  define promo where "promo = concat (promoted_all lib pg url out_dir (node_key ` set mr) (passes p))"
  have cs: "cs = map (candidate_of lib pg url out_dir ''must_review'') mr @ promo"
    using build_candidates_Inr [OF assms] by (simp add: mr_def promo_def)
  have k: "map cand_key (map (candidate_of lib pg url out_dir ''must_review'') mr) = map node_key mr"
    by (simp add: o_def)
  have "distinct (map node_key mr)"
    using select_new_distinct [of "{}" "review_nodes p"] by (simp add: mr_def)
  moreover have "distinct (map cand_key promo)" "cand_key ` set promo \<inter> node_key ` set mr = {}"
    using promoted_all_distinct [of lib pg url out_dir "node_key ` set mr" "passes p"]
    by (simp_all add: promo_def)
  ultimately show ?thesis
    unfolding cs by (simp add: k o_def) blast
qed

lemma promoted_all_mem:
  assumes "c \<in> set (concat (promoted_all lib pg url out_dir S rs))"
  shows "\<exists>r \<in> set rs. \<exists>n \<in> set (take 30 (r_nodes r)).
           c = candidate_of lib pg url out_dir ''semantic_review'' (r, n) \<and>
           r_id r \<in> {Some ''image-alt'', Some ''link-name''} \<and> has_selector (r, n)"
  using assms
proof (induction rs arbitrary: S)
  case Nil
  then show ?case by simp
next
  case (Cons r rs)
  from Cons.prems consider
    (here) "c \<in> set (promoted_by lib pg url out_dir S r)"
    | (later) "c \<in> set (concat (promoted_all lib pg url out_dir
                 (S \<union> cand_key ` set (promoted_by lib pg url out_dir S r)) rs))"
    by auto
  then show ?case
  proof cases
    case here
    with promoted_by_cases [of lib pg url out_dir S r] show ?thesis by auto
  next
    case later
    from Cons.IH [OF this] show ?thesis by auto
  qed
qed

lemma promoted_all_bucket:
  "list_all (\<lambda>c. bucket c = ''semantic_review'') (concat (promoted_all lib pg url out_dir S rs))"
  unfolding list_all_iff
proof
  fix c
  assume "c \<in> set (concat (promoted_all lib pg url out_dir S rs))"
  from promoted_all_mem [OF this] show "bucket c = ''semantic_review''" by auto
qed

lemma promoted_all_length: "length (promoted_all lib pg url out_dir S rs) = length rs"
  by (induction rs arbitrary: S) simp_all

lemma select_new_subset: "set (select_new S xs) \<subseteq> set xs"
  by (induction xs arbitrary: S) auto

lemma rule_nodes_fst: "x \<in> set (rule_nodes rs) \<Longrightarrow> fst x \<in> set rs"
  by (auto simp: rule_nodes_def)

lemma topic_of_cases:
  "topic_of scs = (if scs \<noteq> [] then ''SC-'' @ hd scs else ''BEST_PRACTICE'')"
  by (cases scs) (simp_all add: topic_of_def primary_sc_def str_opt_def)

lemma candidate_of_fields:
  "axe_rule_id (candidate_of lib pg url out_dir bkt x) = r_id (fst x)"
  "selector (candidate_of lib pg url out_dir bkt x) = first_target (snd x)"
  "sc_list (candidate_of lib pg url out_dir bkt x) = extract_scs lib (r_tags (fst x))"
  "topic (candidate_of lib pg url out_dir bkt x) = topic_of (extract_scs lib (r_tags (fst x)))"
  by (simp_all add: candidate_of_def make_candidate_def)

lemma build_candidates_source:
  assumes "build_candidates lib pg url out_dir p = Inr cs" and "c \<in> set cs"
  shows "\<exists>r \<in> set (violations p @ incomplete p @ passes p). \<exists>n \<in> set (r_nodes r). \<exists>bkt.
           c = candidate_of lib pg url out_dir bkt (r, n)"
proof -
  from build_candidates_Inr [OF assms(1)] assms(2) consider
    (mr) "c \<in> candidate_of lib pg url out_dir ''must_review'' ` set (select_new {} (review_nodes p))"
    | (promo) "c \<in> set (concat (promoted_all lib pg url out_dir
                 (node_key ` set (select_new {} (review_nodes p))) (passes p)))"
    by auto
  then show ?thesis
  proof cases
    case mr
    then obtain x where x: "x \<in> set (select_new {} (review_nodes p))"
      and c: "c = candidate_of lib pg url out_dir ''must_review'' x" by auto
    from x select_new_subset have "x \<in> set (review_nodes p)" by blast
    then have "fst x \<in> set (violations p @ incomplete p)" and "snd x \<in> set (r_nodes (fst x))"
      by (auto simp: review_nodes_def rule_nodes_def)
    with c show ?thesis
      by (intro bexI [of _ "fst x"] bexI [of _ "snd x"] exI [of _ "''must_review''"]) auto
  next
    case promo
    from promoted_all_mem [OF this] show ?thesis
      by (auto dest: in_set_takeD)
  qed
qed

lemma SC_prefix: "take 3 (''SC-'' @ s) = ''SC-''" "take 3 ''BEST_PRACTICE'' \<noteq> ''SC-''"
  by simp_all

lemma promoted_all_nth:
  "i < length rs \<Longrightarrow>
   promoted_all lib pg url out_dir S rs ! i =
     promoted_by lib pg url out_dir
       (S \<union> cand_key ` set (concat (take i (promoted_all lib pg url out_dir S rs)))) (rs ! i)"
proof (induction rs arbitrary: S i)
  case Nil
  then show ?case by simp
next
  case (Cons r rs)
  show ?case
  proof (cases i)
    case 0
    then show ?thesis by simp
  next
    case (Suc j)
    with Cons.prems have "j < length rs" by simp
    from Cons.IH [OF this, of "S \<union> cand_key ` set (promoted_by lib pg url out_dir S r)"] Suc
    show ?thesis by (simp add: Un_assoc image_Un)
  qed
qed

lemma lower_ascii: "is_ascii s \<Longrightarrow> lower lib s = ascii_lower s"
  by (simp add: lower_def)

lemma link_text_click_here:
  assumes "query_selector pg sel = Inr True" and "inner_text pg sel = Inr ''Click Here''"
  shows "link_text lib pg sel = Inr ''click here''"
proof -
  have s: "strip ''Click Here'' = ''Click Here''" by code_simp
  have a: "is_ascii ''Click Here''" by code_simp
  have l: "ascii_lower ''Click Here'' = ''click here''" by code_simp
  from assms show ?thesis
    by (simp only: link_text_def s lower_ascii [OF a] l sum.case if_True)
qed

lemma link_qualifies_iff:
  "link_qualifies lib pg S x =
     (has_selector x \<and> node_key x \<notin> S \<and>
      query_selector pg (first_target (snd x)) = Inr True \<and>
      (\<exists>t. inner_text pg (first_target (snd x)) = Inr t \<and>
           lower lib (strip t) \<in> {''click here'', ''learn more'', ''read more''}))"
  by (auto simp: link_qualifies_def link_text_def vague_link_texts_def split: sum.splits)

lemma promoted_by_entry:
  "length (promoted_by lib pg url out_dir S r) \<le> 1 \<and>
   (r_id r \<notin> {Some ''image-alt'', Some ''link-name''} \<longrightarrow> promoted_by lib pg url out_dir S r = []) \<and>
   (\<forall>c \<in> set (promoted_by lib pg url out_dir S r).
      axe_rule_id c = r_id r \<and> selector c \<in> first_target ` set (take 30 (r_nodes r)))"
proof (intro conjI)
  show "length (promoted_by lib pg url out_dir S r) \<le> 1"
    by (rule promoted_by_length)
  show "r_id r \<notin> {Some ''image-alt'', Some ''link-name''} \<longrightarrow> promoted_by lib pg url out_dir S r = []"
    by (simp add: promoted_by_def)
  show "\<forall>c \<in> set (promoted_by lib pg url out_dir S r).
      axe_rule_id c = r_id r \<and> selector c \<in> first_target ` set (take 30 (r_nodes r))"
    using promoted_by_cases [of lib pg url out_dir S r]
    by (auto simp: candidate_of_fields)
qed

section \<open>The claims about the candidate selector\<close>

text \<open>
  C1. For every scan result, no two candidates that \<open>build_candidates\<close> emits (the
  must-review pass over the buckets violations and incomplete, then the promotion from
  the bucket passes) share the pair (rule\_id, selector). When a pair occurs more than
  once among the nodes of violations and incomplete, the candidate is built from its
  first occurrence: the must-review candidates are those of the nodes with a selector
  among the first occurrences of each key, in order.
\<close>

theorem candidate_keys_unique:
  assumes "build_candidates lib pg url out_dir p = Inr cs"
  shows "distinct (map cand_key cs) \<and>
         (\<exists>promo. cs = map (candidate_of lib pg url out_dir ''must_review'')
                          (filter has_selector (first_occurrences node_key (review_nodes p))) @ promo)"
  using build_candidates_distinct [OF assms] build_candidates_Inr [OF assms]
  by (simp add: select_new_first_occurrences)

theorem candidate_keys_unique_witness:
  "build_candidates demo_lib demo_page ''http://example.org'' ''out'' demo_payload = Inr demo_candidates \<and>
   distinct (map cand_key demo_candidates) \<and>
   (\<exists>promo. demo_candidates =
      map (candidate_of demo_lib demo_page ''http://example.org'' ''out'' ''must_review'')
        (filter has_selector (first_occurrences node_key (review_nodes demo_payload))) @ promo)"
proof -
  have run: "build_candidates demo_lib demo_page ''http://example.org'' ''out'' demo_payload
               = Inr demo_candidates"
    by code_simp
  from candidate_keys_unique [OF run] run show ?thesis by simp
qed

text \<open>
  C2. For every scan result, the node at position \<open>i\<close> of the buckets violations and
  incomplete yields a candidate exactly when its selector (the first entry of its target
  list) is not empty and its key (rule\_id, selector) is the key of no earlier node; these
  candidates come first, in node order, each with the bucket \<open>must_review\<close>, and every
  candidate promoted from the bucket passes has the bucket \<open>semantic_review\<close>.
\<close>

theorem must_review_iff:
  assumes "build_candidates lib pg url out_dir p = Inr cs"
  shows "\<exists>mr promo.
           cs = mr @ promo \<and>
           mr = map (candidate_of lib pg url out_dir ''must_review'')
                  (map (nth (review_nodes p))
                     (filter (yields_candidate (review_nodes p)) [0..<length (review_nodes p)])) \<and>
           promo = concat (promoted_all lib pg url out_dir (cand_key ` set mr) (passes p)) \<and>
           list_all (\<lambda>c. bucket c = ''must_review'') mr \<and>
           list_all (\<lambda>c. bucket c = ''semantic_review'') promo"
proof -
  define mr where "mr = map (candidate_of lib pg url out_dir ''must_review'') (select_new {} (review_nodes p))"
  define promo where "promo = concat (promoted_all lib pg url out_dir (cand_key ` set mr) (passes p))"
  have keys: "cand_key ` set mr = node_key ` set (select_new {} (review_nodes p))"
    by (simp add: mr_def image_image)
  have "cs = mr @ promo"
    using build_candidates_Inr [OF assms] unfolding promo_def keys by (simp add: mr_def)
  moreover have "mr = map (candidate_of lib pg url out_dir ''must_review'')
                  (map (nth (review_nodes p))
                     (filter (yields_candidate (review_nodes p)) [0..<length (review_nodes p)]))"
    by (simp only: mr_def select_new_index)
  moreover have "list_all (\<lambda>c. bucket c = ''must_review'') mr"
    by (simp add: mr_def list_all_iff)
  moreover have "list_all (\<lambda>c. bucket c = ''semantic_review'') promo"
    unfolding promo_def by (rule promoted_all_bucket)
  ultimately show ?thesis using promo_def by blast
qed

theorem must_review_iff_witness:
  "build_candidates demo_lib demo_page ''http://example.org'' ''out'' demo_payload = Inr demo_candidates \<and>
   (\<exists>mr promo.
      demo_candidates = mr @ promo \<and>
      mr = map (candidate_of demo_lib demo_page ''http://example.org'' ''out'' ''must_review'')
             (map (nth (review_nodes demo_payload))
                (filter (yields_candidate (review_nodes demo_payload))
                   [0..<length (review_nodes demo_payload)])) \<and>
      promo = concat (promoted_all demo_lib demo_page ''http://example.org'' ''out''
                        (cand_key ` set mr) (passes demo_payload)) \<and>
      list_all (\<lambda>c. bucket c = ''must_review'') mr \<and>
      list_all (\<lambda>c. bucket c = ''semantic_review'') promo)"
proof -
  have run: "build_candidates demo_lib demo_page ''http://example.org'' ''out'' demo_payload
               = Inr demo_candidates"
    by code_simp
  from must_review_iff [OF run] run show ?thesis by simp
qed

text \<open>
  C3. The claim holds of every tag but one kind: a tag that is \<open>wcag\<close> and three digits
  followed by one newline. Such a tag does not match \<open>wcag<digit><digit><digit>\<close>, yet
  \<open>_extract_scs\<close> extracts a criterion from it, and the topic of the rule becomes
  \<open>SC-1.1.1\<close> instead of \<open>BEST_PRACTICE\<close>: the \<open>$\<close> of the pattern also matches
  just before a newline that ends the text. On the tags \<open>wcag111\<close> and \<open>WCAG244\<close>
  the code does what the claim says.
\<close>

theorem extracted_criteria_trailing_newline:
  "\<not> is_wcag_tag demo_lib (''wcag111'' @ [newline]) \<and>
   extract_scs demo_lib [''wcag111'' @ [newline]] = [''1.1.1''] \<and>
   topic_of (extract_scs demo_lib [''wcag111'' @ [newline]]) = ''SC-1.1.1'' \<and>
   is_wcag_tag demo_lib ''WCAG244'' \<and>
   extract_scs demo_lib [''cat.text-alternatives'', ''wcag111'', ''wcag2aa'', ''WCAG244''] =
     [''1.1.1'', ''2.4.4''] \<and>
   topic_of (extract_scs demo_lib [''best-practice'']) = ''BEST_PRACTICE''"
  by code_simp

text \<open>
  C4, as the code has it. The promotion from the bucket passes goes through the entries of
  the bucket in order. An entry whose rule id is neither \<open>image-alt\<close> nor \<open>link-name\<close>
  contributes nothing; an entry contributes at most one candidate, with the entry's rule
  id and the selector of one of its first 30 nodes. So there is at most one promoted
  candidate for each entry of the bucket, which is one for each eligible rule id when the
  bucket lists each rule once. For \<open>link-name\<close> the candidate is that of the first node,
  among the first 30, that qualifies; a node with a selector whose key is not seen yet
  qualifies exactly when its rendered text (the text of the element when the selector
  resolves), trimmed and lowercased, is one of "click here", "learn more" and "read
  more". The text "Click Here" is such a text.
\<close>

theorem promotion_from_passes:
  assumes "build_candidates lib pg url out_dir p = Inr cs"
  shows "(\<exists>mr pss.
            cs = mr @ concat pss \<and>
            list_all (\<lambda>c. bucket c = ''must_review'') mr \<and>
            length pss = length (passes p) \<and>
            (\<forall>i < length (passes p).
               pss ! i = promoted_by lib pg url out_dir
                           (cand_key ` set (mr @ concat (take i pss))) (passes p ! i) \<and>
               length (pss ! i) \<le> 1 \<and>
               (r_id (passes p ! i) \<notin> {Some ''image-alt'', Some ''link-name''} \<longrightarrow> pss ! i = []) \<and>
               (\<forall>c \<in> set (pss ! i).
                  axe_rule_id c = r_id (passes p ! i) \<and>
                  selector c \<in> first_target ` set (take 30 (r_nodes (passes p ! i)))))) \<and>
         (r_id r = Some ''link-name'' \<longrightarrow>
            promoted_by lib pg url out_dir S r =
              (case find (link_qualifies lib pg S) (map (Pair r) (take 30 (r_nodes r))) of
                 None \<Rightarrow> []
               | Some x \<Rightarrow> [candidate_of lib pg url out_dir ''semantic_review'' x])) \<and>
         link_qualifies lib pg S x =
           (has_selector x \<and> node_key x \<notin> S \<and>
            query_selector pg (first_target (snd x)) = Inr True \<and>
            (\<exists>t. inner_text pg (first_target (snd x)) = Inr t \<and>
                 lower lib (strip t) \<in> {''click here'', ''learn more'', ''read more''})) \<and>
         lower lib (strip ''Click Here'') = ''click here''"
proof (intro conjI)
  define mr where "mr = map (candidate_of lib pg url out_dir ''must_review'') (select_new {} (review_nodes p))"
  define pss where "pss = promoted_all lib pg url out_dir (cand_key ` set mr) (passes p)"
  have keys: "cand_key ` set mr = node_key ` set (select_new {} (review_nodes p))"
    by (simp add: mr_def image_image)
  have cs: "cs = mr @ concat pss"
    using build_candidates_Inr [OF assms] unfolding pss_def keys by (simp add: mr_def)
  have mrb: "list_all (\<lambda>c. bucket c = ''must_review'') mr"
    by (simp add: mr_def list_all_iff)
  have len: "length pss = length (passes p)"
    by (simp add: pss_def promoted_all_length)
  have each: "\<forall>i < length (passes p).
               pss ! i = promoted_by lib pg url out_dir
                           (cand_key ` set (mr @ concat (take i pss))) (passes p ! i) \<and>
               length (pss ! i) \<le> 1 \<and>
               (r_id (passes p ! i) \<notin> {Some ''image-alt'', Some ''link-name''} \<longrightarrow> pss ! i = []) \<and>
               (\<forall>c \<in> set (pss ! i).
                  axe_rule_id c = r_id (passes p ! i) \<and>
                  selector c \<in> first_target ` set (take 30 (r_nodes (passes p ! i))))"
  proof (intro allI impI)
    fix i
    assume i: "i < length (passes p)"
    have e: "pss ! i = promoted_by lib pg url out_dir
                           (cand_key ` set (mr @ concat (take i pss))) (passes p ! i)"
      unfolding pss_def using promoted_all_nth [OF i, of lib pg url out_dir "cand_key ` set mr"]
      by (simp add: image_Un)
    show "pss ! i = promoted_by lib pg url out_dir
                           (cand_key ` set (mr @ concat (take i pss))) (passes p ! i) \<and>
               length (pss ! i) \<le> 1 \<and>
               (r_id (passes p ! i) \<notin> {Some ''image-alt'', Some ''link-name''} \<longrightarrow> pss ! i = []) \<and>
               (\<forall>c \<in> set (pss ! i).
                  axe_rule_id c = r_id (passes p ! i) \<and>
                  selector c \<in> first_target ` set (take 30 (r_nodes (passes p ! i))))"
      using promoted_by_entry [of lib pg url out_dir "cand_key ` set (mr @ concat (take i pss))" "passes p ! i"]
      unfolding e [symmetric] using e by blast
  qed
  from cs mrb len each
  show "\<exists>mr pss.
            cs = mr @ concat pss \<and>
            list_all (\<lambda>c. bucket c = ''must_review'') mr \<and>
            length pss = length (passes p) \<and>
            (\<forall>i < length (passes p).
               pss ! i = promoted_by lib pg url out_dir
                           (cand_key ` set (mr @ concat (take i pss))) (passes p ! i) \<and>
               length (pss ! i) \<le> 1 \<and>
               (r_id (passes p ! i) \<notin> {Some ''image-alt'', Some ''link-name''} \<longrightarrow> pss ! i = []) \<and>
               (\<forall>c \<in> set (pss ! i).
                  axe_rule_id c = r_id (passes p ! i) \<and>
                  selector c \<in> first_target ` set (take 30 (r_nodes (passes p ! i)))))"
    by blast
next
  show "r_id r = Some ''link-name'' \<longrightarrow>
            promoted_by lib pg url out_dir S r =
              (case find (link_qualifies lib pg S) (map (Pair r) (take 30 (r_nodes r))) of
                 None \<Rightarrow> []
               | Some x \<Rightarrow> [candidate_of lib pg url out_dir ''semantic_review'' x])"
    by (simp add: promoted_by_def first_qualifying_def)
next
  show "link_qualifies lib pg S x =
           (has_selector x \<and> node_key x \<notin> S \<and>
            query_selector pg (first_target (snd x)) = Inr True \<and>
            (\<exists>t. inner_text pg (first_target (snd x)) = Inr t \<and>
                 lower lib (strip t) \<in> {''click here'', ''learn more'', ''read more''}))"
    by (rule link_qualifies_iff)
next
  have s: "strip ''Click Here'' = ''Click Here''" by code_simp
  have a: "is_ascii ''Click Here''" by code_simp
  have l: "ascii_lower ''Click Here'' = ''click here''" by code_simp
  show "lower lib (strip ''Click Here'') = ''click here''"
    by (simp only: s lower_ascii [OF a] l)
qed

theorem promotion_from_passes_witness:
  "build_candidates demo_lib demo_page ''http://example.org'' ''out'' demo_payload = Inr demo_candidates \<and>
   (\<exists>mr pss.
      demo_candidates = mr @ concat pss \<and>
      list_all (\<lambda>c. bucket c = ''must_review'') mr \<and>
      length pss = length (passes demo_payload) \<and>
      (\<forall>i < length (passes demo_payload).
         pss ! i = promoted_by demo_lib demo_page ''http://example.org'' ''out''
                     (cand_key ` set (mr @ concat (take i pss))) (passes demo_payload ! i) \<and>
         length (pss ! i) \<le> 1 \<and>
         (r_id (passes demo_payload ! i) \<notin> {Some ''image-alt'', Some ''link-name''} \<longrightarrow> pss ! i = []) \<and>
         (\<forall>c \<in> set (pss ! i).
            axe_rule_id c = r_id (passes demo_payload ! i) \<and>
            selector c \<in> first_target ` set (take 30 (r_nodes (passes demo_payload ! i)))))) \<and>
   promoted_by demo_lib demo_page ''http://example.org'' ''out'' {}
       (demo_rule ''link-name'' [] [demo_node ''a#home'', demo_node ''a#more'']) =
     (case find (link_qualifies demo_lib demo_page {})
             (map (Pair (demo_rule ''link-name'' [] [demo_node ''a#home'', demo_node ''a#more'']))
                (take 30 (r_nodes (demo_rule ''link-name'' [] [demo_node ''a#home'', demo_node ''a#more''])))) of
        None \<Rightarrow> []
      | Some x \<Rightarrow> [candidate_of demo_lib demo_page ''http://example.org'' ''out'' ''semantic_review'' x])"
proof -
  have run: "build_candidates demo_lib demo_page ''http://example.org'' ''out'' demo_payload
               = Inr demo_candidates"
    by code_simp
  have rid: "r_id (demo_rule ''link-name'' [] [demo_node ''a#home'', demo_node ''a#more''])
               = Some ''link-name''"
    by (simp add: demo_rule_def)
  note t = promotion_from_passes [OF run,
      of "demo_rule ''link-name'' [] [demo_node ''a#home'', demo_node ''a#more'']" "{}"]
  from t [THEN conjunct1] t [THEN conjunct2, THEN conjunct1, THEN mp, OF rid] run
  show ?thesis by blast
qed

text \<open>
  With the rule \<open>link-name\<close> listed twice in the bucket passes, each entry promotes its
  own vague link: two candidates of one rule id in one scan. And when the first vague link
  of an entry has a key that is already seen, the entry promotes a later vague link.
\<close>

theorem promotion_per_rule_id_counterexample:
  "build_candidates demo_lib demo_page ''http://example.org'' ''out'' demo_passes_twice =
     Inr [demo_candidate ''semantic_review'' ''BEST_PRACTICE'' [] ''link-name'' ''a#more'',
          demo_candidate ''semantic_review'' ''BEST_PRACTICE'' [] ''link-name'' ''a#again''] \<and>
   build_candidates demo_lib demo_page ''http://example.org'' ''out'' demo_link_seen =
     Inr [demo_candidate ''must_review'' ''BEST_PRACTICE'' [] ''link-name'' ''a#more'',
          demo_candidate ''semantic_review'' ''BEST_PRACTICE'' [] ''link-name'' ''a#again''] \<and>
   link_text demo_lib demo_page ''a#more'' = Inr ''click here''"
  by code_simp

section \<open>Properties of the review pass\<close>

lemma contains_Nil: "contains [] ys"
  by (cases ys) simp_all

lemma contains_self: "contains g (g @ ys)"
  by (cases g) (simp_all add: contains_Nil)

lemma contains_mid: "contains g (xs @ g @ ys)"
proof (induction xs)
  case Nil
  show ?case by (simp add: contains_self)
next
  case (Cons x xs)
  then show ?case by simp
qed

lemma placeholder_error_names: "contains m (exn_str (placeholder_error m))"
proof -
  have "\<exists>ys. exn_str (placeholder_error m) = ''Template formatting error near placeholder '' @ m @ ys"
    by (simp add: placeholder_error_def)
  then show ?thesis using contains_mid by metis
qed

lemma build_prompt_format_error:
  assumes "read_text w path = Inr tpl"
    and "str_format lib tpl (fmt_vars lib sc (effective_doc sc tech_doc c) c) = Inl (Exn k m)"
  shows "build_prompt lib w path sc tech_doc c =
           Inl (if is_a k KeyError then placeholder_error m
                else if is_a k ValueError then malformed_error else Exn k m)"
  using assms by (simp add: build_prompt_def Let_def)

lemma check_keys_obj:
  "check_keys lib ks (JObj kvs) =
     (case find (\<lambda>k. k \<notin> fst ` set kvs) ks of
        None \<Rightarrow> Inr ()
      | Some k \<Rightarrow> Inl (Exn ValueError (''Missing key: '' @ k)))"
  by (induction ks) (simp_all add: py_in_def)










lemma demo_read: "read_text (demo_world tpl) (template_file ''repo'') = Inr tpl"
  by (simp add: read_text_def demo_world_def template_file_def candidates_file_def verdicts_file_def)

lemma find_Some_missing:
  "find (\<lambda>k. k \<notin> S) ks = None \<Longrightarrow> set ks \<subseteq> S"
  by (induction ks) (auto split: if_splits)

lemma body_call_raises:
  "call i prompt = Inl e \<Longrightarrow> run_llm_openai_body lib call i prompt = Inl e"
  by (simp add: run_llm_openai_body_def)

lemma body_parse_fails:
  "call i prompt = Inr (Some content) \<Longrightarrow> json_loads lib (extract_json (strip content)) = Inl e \<Longrightarrow>
   run_llm_openai_body lib call i prompt = Inl e"
  by (simp add: run_llm_openai_body_def)

lemma body_missing_key:
  assumes "call i prompt = Inr (Some content)"
    and "json_loads lib (extract_json (strip content)) = Inr (JObj kvs)"
    and "\<not> set required_keys \<subseteq> fst ` set kvs"
  shows "\<exists>k. k \<in> set required_keys \<and> k \<notin> fst ` set kvs \<and>
             run_llm_openai_body lib call i prompt = Inl (Exn ValueError (''Missing key: '' @ k))"
proof (cases "find (\<lambda>k. k \<notin> fst ` set kvs) required_keys")
  case None
  from find_Some_missing [OF this] assms(3) show ?thesis by simp
next
  case (Some k)
  then have "k \<in> set required_keys" "k \<notin> fst ` set kvs"
    by (auto dest: find_Some_mem)
  moreover from Some assms(1,2)
  have "run_llm_openai_body lib call i prompt = Inl (Exn ValueError (''Missing key: '' @ k))"
    by (simp add: run_llm_openai_body_def check_keys_obj)
  ultimately show ?thesis by blast
qed

lemma body_content:
  "call i prompt = Inr (Some content) \<Longrightarrow>
   run_llm_openai_body lib call i prompt =
     (case json_loads lib (extract_json (strip content)) of
        Inl e \<Rightarrow> Inl e
      | Inr data \<Rightarrow> (case check_keys lib required_keys data of Inl e \<Rightarrow> Inl e | Inr u \<Rightarrow> Inr data))"
  by (simp add: run_llm_openai_body_def)

lemma check_keys_obj_iff:
  "(check_keys lib required_keys (JObj kvs) = Inr ()) = (set required_keys \<subseteq> fst ` set kvs)"
proof (cases "find (\<lambda>k. k \<notin> fst ` set kvs) required_keys")
  case None
  then show ?thesis by (simp add: check_keys_obj find_Some_missing)
next
  case (Some k)
  then have "k \<in> set required_keys" "k \<notin> fst ` set kvs"
    by (auto dest: find_Some_mem)
  with Some show ?thesis by (auto simp: check_keys_obj)
qed


lemma hexdigest_length: "length (hexdigest h) = 64"
  by (simp add: hexdigest_def)

lemma prompt_hash_length: "length (prompt_hash_of lib p) = 16"
  by (simp add: prompt_hash_of_def hexdigest_length)

lemma nibble_bound: "unat ((x :: 256 word) AND 15) < 16"
proof -
  have "unat (x AND 15) \<le> unat (15 :: 256 word)"
    by (rule word_and_le1 [THEN word_le_nat_alt [THEN iffD1]])
  then show ?thesis by simp
qed

lemma hex_digit_mem: "n < 16 \<Longrightarrow> hex_digit n \<in> set hex_chars"
proof -
  assume "n < 16"
  then have "n < length ''0123456789abcdef''" by simp
  then have "''0123456789abcdef'' ! n \<in> set ''0123456789abcdef''" by (rule nth_mem)
  then show ?thesis by (simp only: hex_digit_def hex_chars_def)
qed

lemma hexdigest_hex: "set (hexdigest h) \<subseteq> set hex_chars"
  by (auto simp: hexdigest_def intro!: hex_digit_mem nibble_bound)

lemma prompt_hash_hex: "set (prompt_hash_of lib p) \<subseteq> set hex_chars"
  using hexdigest_hex [of "sha256 lib p"]
  by (auto simp: prompt_hash_of_def dest: in_set_takeD)











section \<open>The claims about the review pass\<close>

text \<open>
  C6. \<open>build_prompt\<close> turns the \<open>KeyError\<close> and the \<open>ValueError\<close> of \<open>str.format\<close>
  into a \<open>RuntimeError\<close> that names the placeholder or says that the format string is
  invalid; any other exception of \<open>str.format\<close> goes on as it is. A template with the
  unescaped braces \<open>{}\<close> (an empty JSON object in an example) makes \<open>str.format\<close>
  raise an \<open>IndexError\<close>, since no positional argument is given: for this template
  \<open>build_prompt\<close> raises that bare \<open>IndexError\<close>, which names neither a placeholder nor
  the template, and the run ends with it. For an unknown placeholder and for a single
  unescaped brace the descriptive errors are raised.
\<close>

theorem template_defect_bare_index_error:
  "build_prompt demo_lib (demo_world ''Example output: {}'') (template_file ''repo'') ''1.1.1'' []
      (demo_candidate ''must_review'' ''SC-1.1.1'' [''1.1.1''] ''image-alt'' ''img#logo'') =
     Inl (Exn IndexError ''Replacement index 0 out of range for positional args tuple'') \<and>
   fst (review demo_lib (demo_env False False) demo_chat ''repo'' ''out''
          (demo_world ''Example output: {}'')) =
     Inl (Exn IndexError ''Replacement index 0 out of range for positional args tuple'') \<and>
   build_prompt demo_lib (demo_world ''Review {bogus} now'') (template_file ''repo'') ''1.1.1'' []
      (demo_candidate ''must_review'' ''SC-1.1.1'' [''1.1.1''] ''image-alt'' ''img#logo'') =
     Inl (Exn RuntimeError
       (''Template formatting error near placeholder '' @ [CHR 0x27] @ ''bogus'' @ [CHR 0x27] @
        ''. You likely have an unescaped '' @ [CHR 0x27] @ ''{'' @ [CHR 0x27] @ '' or '' @
        [CHR 0x27] @ ''}'' @ [CHR 0x27] @ '' in the template. '' @
        ''Double all literal braces in JSON examples (use '' @ [CHR 0x27] @ ''{{'' @
        [CHR 0x27] @ '' and '' @ [CHR 0x27] @ ''}}'' @ [CHR 0x27] @ '').'')) \<and>
   build_prompt demo_lib (demo_world ''Example: {'') (template_file ''repo'') ''1.1.1'' []
      (demo_candidate ''must_review'' ''SC-1.1.1'' [''1.1.1''] ''image-alt'' ''img#logo'') =
     Inl (Exn RuntimeError
       (''Template formatting error (invalid format string). '' @
        ''Ensure all literal braces are escaped as '' @ [CHR 0x27] @ ''{{'' @ [CHR 0x27] @
        '' and '' @ [CHR 0x27] @ ''}}'' @ [CHR 0x27] @ ''.''))"
  by code_simp

text \<open>
  C7. In stub mode (the switch is off, or there is no key) \<open>run_llm\<close> returns, for every
  prompt, the one constant record: type "informative", verdict "needs-change", confidence
  0.5, techniques\_used ["demo-only"] and a reason that says it is a demo verdict. In live
  mode, whenever the body of the \<open>try\<close> raises, \<open>run_llm\<close> returns the fallback record:
  type "informative", verdict "needs-change", confidence 0.4, techniques\_used
  ["fallback"], and a reason that ends with the text of the exception; nothing is
  propagated, since \<open>run_llm\<close> returns a record in every case. The body raises when the
  call of the model raises, when \<open>json.loads\<close> raises, and when the parsed object lacks
  one of the keys type, verdict, reason, confidence, techniques\_used.
\<close>

theorem verdict_adapter_stub_and_fallback:
  "(\<not> use_live_llm ev \<longrightarrow> run_llm lib ev call i prompt = stub_verdict) \<and>
   stub_verdict =
     JObj [(''type'', JStr ''informative''), (''verdict'', JStr ''needs-change''),
           (''reason'', JStr ''Demo verdict (no live LLM or A11Y_USE_LLM=0).''),
           (''confidence'', JNum (1 / 2)), (''techniques_used'', JArr [JStr ''demo-only''])] \<and>
   (use_live_llm ev \<and> run_llm_openai_body lib call i prompt = Inl e \<longrightarrow>
      run_llm lib ev call i prompt = fallback_verdict (exn_str e)) \<and>
   fallback_verdict m =
     JObj [(''type'', JStr ''informative''), (''verdict'', JStr ''needs-change''),
           (''reason'', JStr (''LLM fallback (parse/error): '' @ m)),
           (''confidence'', JNum (2 / 5)), (''techniques_used'', JArr [JStr ''fallback''])] \<and>
   (call i prompt = Inl e \<longrightarrow> run_llm_openai_body lib call i prompt = Inl e) \<and>
   (call i prompt = Inr (Some content) \<and> json_loads lib (extract_json (strip content)) = Inl e \<longrightarrow>
      run_llm_openai_body lib call i prompt = Inl e) \<and>
   (call i prompt = Inr (Some content) \<and>
    json_loads lib (extract_json (strip content)) = Inr (JObj kvs) \<and>
    \<not> set required_keys \<subseteq> fst ` set kvs \<longrightarrow>
      (\<exists>k. k \<in> set required_keys \<and> k \<notin> fst ` set kvs \<and>
           run_llm_openai_body lib call i prompt = Inl (Exn ValueError (''Missing key: '' @ k)))) \<and>
   required_keys = [''type'', ''verdict'', ''reason'', ''confidence'', ''techniques_used'']"
proof (intro conjI impI)
  show "stub_verdict =
     JObj [(''type'', JStr ''informative''), (''verdict'', JStr ''needs-change''),
           (''reason'', JStr ''Demo verdict (no live LLM or A11Y_USE_LLM=0).''),
           (''confidence'', JNum (1 / 2)), (''techniques_used'', JArr [JStr ''demo-only''])]"
    by (simp add: stub_verdict_def)
  show "fallback_verdict m =
     JObj [(''type'', JStr ''informative''), (''verdict'', JStr ''needs-change''),
           (''reason'', JStr (''LLM fallback (parse/error): '' @ m)),
           (''confidence'', JNum (2 / 5)), (''techniques_used'', JArr [JStr ''fallback''])]"
    by (simp add: fallback_verdict_def)
  show "required_keys = [''type'', ''verdict'', ''reason'', ''confidence'', ''techniques_used'']"
    by (simp add: required_keys_def)
next
  assume "\<not> use_live_llm ev"
  then show "run_llm lib ev call i prompt = stub_verdict"
    by (simp add: run_llm_def)
next
  assume "use_live_llm ev \<and> run_llm_openai_body lib call i prompt = Inl e"
  then show "run_llm lib ev call i prompt = fallback_verdict (exn_str e)"
    by (simp add: run_llm_def run_llm_openai_def)
next
  assume "call i prompt = Inl e"
  then show "run_llm_openai_body lib call i prompt = Inl e"
    by (rule body_call_raises)
next
  assume "call i prompt = Inr (Some content) \<and> json_loads lib (extract_json (strip content)) = Inl e"
  then show "run_llm_openai_body lib call i prompt = Inl e"
    by (simp add: body_parse_fails)
next
  assume "call i prompt = Inr (Some content) \<and>
    json_loads lib (extract_json (strip content)) = Inr (JObj kvs) \<and>
    \<not> set required_keys \<subseteq> fst ` set kvs"
  then show "\<exists>k. k \<in> set required_keys \<and> k \<notin> fst ` set kvs \<and>
           run_llm_openai_body lib call i prompt = Inl (Exn ValueError (''Missing key: '' @ k))"
    using body_missing_key by blast
qed


theorem verdict_adapter_stub_and_fallback_witness:
  "run_llm demo_lib (demo_env False False) demo_chat 0 ''p'' = stub_verdict \<and>
   run_llm demo_lib (demo_env True False) demo_chat 0 ''p'' = fallback_verdict ''Connection error.'' \<and>
   run_llm demo_lib (demo_env True False) demo_chat 1 ''p'' = fallback_verdict ''Expecting value'' \<and>
   (\<exists>k. k \<in> set required_keys \<and>
        run_llm demo_lib (demo_env True False) demo_chat 2 ''p'' =
          fallback_verdict (''Missing key: '' @ k))"
proof -
  have off: "\<not> use_live_llm (demo_env False False)"
    by (simp add: use_live_llm_def demo_env_def)
  have on: "use_live_llm (demo_env True False)"
    by (simp add: use_live_llm_def demo_env_def or_empty_def)
  have c0: "demo_chat 0 ''p'' = Inl (Exn OtherError ''Connection error.'')"
    by (simp add: demo_chat_def)
  have c1: "demo_chat 1 ''p'' = Inr (Some ''not json'')"
    by (simp add: demo_chat_def)
  have c2: "demo_chat 2 ''p'' = Inr (Some '' {} '')"
    by (simp add: demo_chat_def)
  have p1: "json_loads demo_lib (extract_json (strip ''not json'')) = Inl (Exn JSONDecodeError ''Expecting value'')"
    by code_simp
  have p2: "json_loads demo_lib (extract_json (strip '' {} '')) = Inr (JObj [])"
    by code_simp
  have miss: "\<not> set required_keys \<subseteq> fst ` set ([] :: (string \<times> json) list)"
    by (simp add: required_keys_def)
  note t = verdict_adapter_stub_and_fallback
  have a: "run_llm demo_lib (demo_env False False) demo_chat 0 ''p'' = stub_verdict"
    using t [where ev = "demo_env False False" and lib = demo_lib and call = demo_chat and i = 0
               and prompt = "''p''"] off by blast
  have b0: "run_llm_openai_body demo_lib demo_chat 0 ''p'' = Inl (Exn OtherError ''Connection error.'')"
    using t [where lib = demo_lib and call = demo_chat and i = 0 and prompt = "''p''"
               and e = "Exn OtherError ''Connection error.''"] c0 by blast
  have b: "run_llm demo_lib (demo_env True False) demo_chat 0 ''p'' = fallback_verdict ''Connection error.''"
    using t [where ev = "demo_env True False" and lib = demo_lib and call = demo_chat and i = 0
               and prompt = "''p''" and e = "Exn OtherError ''Connection error.''"] on b0 by simp
  have b1: "run_llm_openai_body demo_lib demo_chat 1 ''p'' = Inl (Exn JSONDecodeError ''Expecting value'')"
    using t [where lib = demo_lib and call = demo_chat and i = 1 and prompt = "''p''"
               and e = "Exn JSONDecodeError ''Expecting value''" and content = "''not json''"] c1 p1
    by blast
  have c: "run_llm demo_lib (demo_env True False) demo_chat 1 ''p'' = fallback_verdict ''Expecting value''"
    using t [where ev = "demo_env True False" and lib = demo_lib and call = demo_chat and i = 1
               and prompt = "''p''" and e = "Exn JSONDecodeError ''Expecting value''"] on b1 by simp
  have "\<exists>k. k \<in> set required_keys \<and> k \<notin> fst ` set ([] :: (string \<times> json) list) \<and>
           run_llm_openai_body demo_lib demo_chat 2 ''p'' = Inl (Exn ValueError (''Missing key: '' @ k))"
    using t [where lib = demo_lib and call = demo_chat and i = 2 and prompt = "''p''"
               and content = "'' {} ''" and kvs = "[]"] c2 p2 miss by blast
  then obtain k where k: "k \<in> set required_keys"
    and b2: "run_llm_openai_body demo_lib demo_chat 2 ''p'' = Inl (Exn ValueError (''Missing key: '' @ k))"
    by blast
  have d: "run_llm demo_lib (demo_env True False) demo_chat 2 ''p'' = fallback_verdict (''Missing key: '' @ k)"
    using t [where ev = "demo_env True False" and lib = demo_lib and call = demo_chat and i = 2
               and prompt = "''p''" and e = "Exn ValueError (''Missing key: '' @ k)"] on b2 by simp
  from a b c d k show ?thesis by blast
qed





end
